theory Spec2Isabelle
  imports Complex_Main
begin

section \<open>Weak-acid dissociation equilibrium (chem\_equilibrium.py)\<close>

text \<open>
  The program solves \<open>HA \<rightleftharpoons> H+ + A-\<close> for the extent of dissociation \<open>x\<close> by the
  quadratic \<open>x\<^sup>2 + Ka x - Ka c0 = 0\<close>.

  Numbers: the source computes with Python \<open>float\<close>, which is IEEE 754 binary64. The
  solver is embedded twice, statement by statement each time.

  \<^item> Over exact arithmetic (\<open>solve_equilibrium\<close>): every \<open>float\<close> is a real number and every
    operation the exact one. This is the quadratic the docstring of the source
    describes. It is used for the relation between the fields of one result, for a call
    whose arithmetic is exact in binary64 and where the statement leaves room for the
    rounding, and it is the yardstick for what the exact solution of a call is.

  \<^item> Over binary64 (\<open>solve_equilibrium_64\<close>): every operation rounds to nearest, ties to
    even, with subnormal numbers, overflow to infinity, the infinities and NaN. This is
    what the program computes, and the universally quantified properties are judged
    against it.

  Errors: each \<open>raise ValueError\<close> of the source, and each exception a library function or
  an operator of the source can raise, is a value; a call that raises returns \<open>Inl\<close> of it,
  a call that returns gives \<open>Inr\<close> of the result.
\<close>

section \<open>The solver over exact arithmetic\<close>

subsection \<open>Data\<close>

text \<open>The dataclass \<open>WeakAcidSystem\<close>: initial concentration and dissociation constant.\<close>

record WeakAcidSystem =
  c0 :: real
  Ka :: real

text \<open>
  The dictionary returned by \<open>solve_equilibrium\<close>, with its four keys
  \<open>[H+]\<close>, \<open>[A-]\<close>, \<open>[HA]\<close> and \<open>pH\<close> in the order the source writes them.
\<close>

record EquilibriumResult =
  h_plus :: real
  a_minus :: real
  ha :: real
  pH :: real

text \<open>
  The ways the solver can raise. \<open>NoRealSolution\<close> and \<open>NoPhysicalSolution\<close> are the two
  \<open>raise ValueError\<close> statements of \<open>solve_equilibrium\<close>; \<open>MathDomainError\<close> is the
  \<open>ValueError\<close> of \<open>math.sqrt\<close> and \<open>math.log10\<close> outside their domain;
  \<open>EmptySequence\<close> is the \<open>ValueError\<close> of \<open>max\<close> on an empty list.
\<close>

datatype ValueError =
  NoRealSolution
  | NoPhysicalSolution
  | MathDomainError
  | EmptySequence

subsection \<open>Library functions the solver calls\<close>

text \<open>\<open>math.sqrt\<close> raises on a negative argument.\<close>

definition math_sqrt :: "real \<Rightarrow> ValueError + real" where
  "math_sqrt v = (if v < 0 then Inl MathDomainError else Inr (sqrt v))"

text \<open>\<open>math.log10\<close> raises on zero and on a negative argument.\<close>

definition math_log10 :: "real \<Rightarrow> ValueError + real" where
  "math_log10 v = (if v \<le> 0 then Inl MathDomainError else Inr (log 10 v))"

text \<open>The builtin \<open>max\<close> on a list: raises on the empty list.\<close>

fun max_list :: "real list \<Rightarrow> ValueError + real" where
  "max_list [] = Inl EmptySequence"
| "max_list (v # vs) = Inr (foldl max v vs)"

subsection \<open>The solver\<close>

text \<open>
  \<open>WeakAcidSystem.solve_equilibrium\<close>, statement by statement. The local variables
  keep their names; \<open>r1\<close> and \<open>r2\<close> are the values of the two calls of \<open>math.sqrt\<close>.
\<close>

definition solve_equilibrium :: "WeakAcidSystem \<Rightarrow> ValueError + EquilibriumResult" where
  "solve_equilibrium self =
    (let a = 1;
         b = Ka self;
         c = - Ka self * c0 self;
         disc = b * b - 4 * a * c
     in if disc < 0 then Inl NoRealSolution
        else
          case math_sqrt disc of
            Inl e \<Rightarrow> Inl e
          | Inr r1 \<Rightarrow>
              (let x1 = (- b + r1) / (2 * a)
               in case math_sqrt disc of
                    Inl e \<Rightarrow> Inl e
                  | Inr r2 \<Rightarrow>
                      (let x2 = (- b - r2) / (2 * a);
                           candidates = filter (\<lambda>x. 0 \<le> x \<and> x \<le> c0 self) [x1, x2]
                       in if candidates = [] then Inl NoPhysicalSolution
                          else
                            case max_list candidates of
                              Inl e \<Rightarrow> Inl e
                            | Inr x \<Rightarrow>
                                (let h_conc = x;
                                     a_minus_conc = x;
                                     ha_conc = c0 self - x
                                 in case math_log10 h_conc of
                                      Inl e \<Rightarrow> Inl e
                                    | Inr l \<Rightarrow>
                                        Inr \<lparr>h_plus = h_conc, a_minus = a_minus_conc,
                                             ha = ha_conc, pH = - l\<rparr>))))"

text \<open>
  The intermediate values of one call, as functions of the input, so that statements
  can speak about them: the discriminant, the two roots and the filtered list.
\<close>

definition disc_of :: "WeakAcidSystem \<Rightarrow> real" where
  "disc_of self = Ka self * Ka self - 4 * 1 * (- Ka self * c0 self)"

definition x1_of :: "WeakAcidSystem \<Rightarrow> real" where
  "x1_of self = (- Ka self + sqrt (disc_of self)) / (2 * 1)"

definition x2_of :: "WeakAcidSystem \<Rightarrow> real" where
  "x2_of self = (- Ka self - sqrt (disc_of self)) / (2 * 1)"

definition candidates_of :: "WeakAcidSystem \<Rightarrow> real list" where
  "candidates_of self = filter (\<lambda>x. 0 \<le> x \<and> x \<le> c0 self) [x1_of self, x2_of self]"

section \<open>The solver over binary64\<close>

subsection \<open>Floating-point values and rounding\<close>

text \<open>
  A \<open>float\<close> is a finite number, an infinity or NaN. A finite float is given by its value,
  so the two zeros \<open>0.0\<close> and \<open>-0.0\<close> are one value \<open>Fin 0\<close>: Python compares them equal,
  \<open>math.log10\<close> raises on both, and the solver never divides by a computed number, so no
  statement of the source tells them apart.
\<close>

datatype pyfloat = Fin real | PInf | NInf | NaN

text \<open>\<open>pow2 k\<close> is \<open>2\<^sup>k\<close> for an integer \<open>k\<close> of either sign.\<close>

definition pow2 :: "int \<Rightarrow> real" where
  "pow2 k = 2 powr real_of_int k"

text \<open>Rounding a real to the nearest integer, a tie going to the even neighbour.\<close>

definition round_ties_even :: "real \<Rightarrow> int" where
  "round_ties_even y =
    (let f = \<lfloor>y\<rfloor>
     in if y - of_int f < 1 / 2 then f
        else if 1 / 2 < y - of_int f then f + 1
        else if even f then f
        else f + 1)"

text \<open>
  Rounding a real to binary64. The exponent of \<open>x\<close> is the floor of its binary logarithm,
  not below \<open>-1022\<close> (below it the subnormal numbers share the spacing \<open>pow2 (-1074)\<close>); the
  spacing of the floats around \<open>x\<close> is \<open>pow2\<close> of that exponent less \<open>52\<close>; \<open>x\<close> goes to the
  nearest multiple of the spacing, ties to even; a result of magnitude \<open>2 ^ 1024\<close> or more
  is an infinity.
\<close>

definition b64_round :: "real \<Rightarrow> pyfloat" where
  "b64_round x =
    (if x = 0 then Fin 0
     else
       let e = max \<lfloor>log 2 \<bar>x\<bar>\<rfloor> (- 1022);
           q = pow2 (e - 52);
           r = of_int (round_ties_even (x / q)) * q
       in if 2 ^ 1024 \<le> \<bar>r\<bar> then (if 0 < x then PInf else NInf) else Fin r)"

subsection \<open>Operators\<close>

text \<open>
  Unary minus, \<open>+\<close>, \<open>-\<close>, \<open>*\<close> and \<open>/\<close> on floats, with the IEEE results for the
  infinities and NaN. Python raises \<open>ZeroDivisionError\<close> on a zero divisor; no other
  operator raises.
\<close>

datatype py_exception = ValueError_of ValueError | ZeroDivisionError

fun fneg :: "pyfloat \<Rightarrow> pyfloat" where
  "fneg (Fin x) = Fin (- x)"
| "fneg PInf = NInf"
| "fneg NInf = PInf"
| "fneg NaN = NaN"

fun fadd :: "pyfloat \<Rightarrow> pyfloat \<Rightarrow> pyfloat" where
  "fadd (Fin x) (Fin y) = b64_round (x + y)"
| "fadd (Fin x) PInf = PInf"
| "fadd (Fin x) NInf = NInf"
| "fadd PInf (Fin y) = PInf"
| "fadd NInf (Fin y) = NInf"
| "fadd PInf PInf = PInf"
| "fadd NInf NInf = NInf"
| "fadd PInf NInf = NaN"
| "fadd NInf PInf = NaN"
| "fadd NaN y = NaN"
| "fadd x NaN = NaN"

definition fsub :: "pyfloat \<Rightarrow> pyfloat \<Rightarrow> pyfloat" where
  "fsub x y = fadd x (fneg y)"

fun fmul :: "pyfloat \<Rightarrow> pyfloat \<Rightarrow> pyfloat" where
  "fmul (Fin x) (Fin y) = b64_round (x * y)"
| "fmul (Fin x) PInf = (if x = 0 then NaN else if 0 < x then PInf else NInf)"
| "fmul (Fin x) NInf = (if x = 0 then NaN else if 0 < x then NInf else PInf)"
| "fmul PInf (Fin y) = (if y = 0 then NaN else if 0 < y then PInf else NInf)"
| "fmul NInf (Fin y) = (if y = 0 then NaN else if 0 < y then NInf else PInf)"
| "fmul PInf PInf = PInf"
| "fmul NInf NInf = PInf"
| "fmul PInf NInf = NInf"
| "fmul NInf PInf = NInf"
| "fmul NaN y = NaN"
| "fmul x NaN = NaN"

definition fdiv :: "pyfloat \<Rightarrow> pyfloat \<Rightarrow> py_exception + pyfloat" where
  "fdiv x y =
    (case y of
       Fin d \<Rightarrow>
         if d = 0 then Inl ZeroDivisionError
         else
           (case x of
              Fin n \<Rightarrow> Inr (b64_round (n / d))
            | PInf \<Rightarrow> Inr (if 0 < d then PInf else NInf)
            | NInf \<Rightarrow> Inr (if 0 < d then NInf else PInf)
            | NaN \<Rightarrow> Inr NaN)
     | NaN \<Rightarrow> Inr NaN
     | _ \<Rightarrow> (case x of Fin n \<Rightarrow> Inr (Fin 0) | _ \<Rightarrow> Inr NaN))"

text \<open>The comparisons \<open><\<close> and \<open><=\<close>: false whenever an operand is NaN.\<close>

definition flt :: "pyfloat \<Rightarrow> pyfloat \<Rightarrow> bool" where
  "flt x y =
    (case x of
       Fin u \<Rightarrow> (case y of Fin v \<Rightarrow> u < v | PInf \<Rightarrow> True | _ \<Rightarrow> False)
     | NInf \<Rightarrow> (case y of Fin v \<Rightarrow> True | PInf \<Rightarrow> True | _ \<Rightarrow> False)
     | _ \<Rightarrow> False)"

definition fle :: "pyfloat \<Rightarrow> pyfloat \<Rightarrow> bool" where
  "fle x y =
    (case x of
       Fin u \<Rightarrow> (case y of Fin v \<Rightarrow> u \<le> v | PInf \<Rightarrow> True | _ \<Rightarrow> False)
     | NInf \<Rightarrow> (case y of NaN \<Rightarrow> False | _ \<Rightarrow> True)
     | PInf \<Rightarrow> (case y of PInf \<Rightarrow> True | _ \<Rightarrow> False)
     | NaN \<Rightarrow> False)"

subsection \<open>Library functions\<close>

text \<open>
  \<open>math.sqrt\<close> is correctly rounded; it raises on a negative argument and on \<open>-inf\<close>, and
  passes \<open>inf\<close> and NaN through.
\<close>

definition math_sqrt_64 :: "pyfloat \<Rightarrow> py_exception + pyfloat" where
  "math_sqrt_64 x =
    (case x of
       Fin v \<Rightarrow> if v < 0 then Inl (ValueError_of MathDomainError) else Inr (b64_round (sqrt v))
     | PInf \<Rightarrow> Inr PInf
     | NInf \<Rightarrow> Inl (ValueError_of MathDomainError)
     | NaN \<Rightarrow> Inr NaN)"

text \<open>
  \<open>math.log10\<close> raises on zero, on a negative argument and on \<open>-inf\<close>, and passes \<open>inf\<close>
  and NaN through. For a positive finite argument the platform's \<open>log10\<close> returns a float
  next to the logarithm; it is taken here as the nearest one, and no statement below
  depends on the digits of a logarithm.
\<close>

definition math_log10_64 :: "pyfloat \<Rightarrow> py_exception + pyfloat" where
  "math_log10_64 x =
    (case x of
       Fin v \<Rightarrow> if v \<le> 0 then Inl (ValueError_of MathDomainError) else Inr (b64_round (log 10 v))
     | PInf \<Rightarrow> Inr PInf
     | NInf \<Rightarrow> Inl (ValueError_of MathDomainError)
     | NaN \<Rightarrow> Inr NaN)"

text \<open>The builtin \<open>max\<close>: keeps the first element unless a later one is greater.\<close>

fun max_list_64 :: "pyfloat list \<Rightarrow> py_exception + pyfloat" where
  "max_list_64 [] = Inl (ValueError_of EmptySequence)"
| "max_list_64 (v # vs) = Inr (foldl (\<lambda>m y. if flt m y then y else m) v vs)"

subsection \<open>The solver\<close>

record WeakAcidSystem64 =
  c0_64 :: pyfloat
  Ka_64 :: pyfloat

record EquilibriumResult64 =
  h_plus_64 :: pyfloat
  a_minus_64 :: pyfloat
  ha_64 :: pyfloat
  pH_64 :: pyfloat

text \<open>
  \<open>WeakAcidSystem.solve_equilibrium\<close> in three pieces, in the order of the source: the
  discriminant (\<open>a\<close>, \<open>b\<close>, \<open>c\<close>, \<open>disc\<close>); the test \<open>disc < 0\<close>, the two roots and the
  filter, which give the list \<open>candidates\<close>; the test of the list, the selection and the
  returned dictionary. The literals \<open>4\<close>, \<open>2\<close> and \<open>0\<close> of the source are integers, which
  Python converts exactly.
\<close>

definition disc_64 :: "WeakAcidSystem64 \<Rightarrow> pyfloat" where
  "disc_64 self =
    (let a = Fin 1;
         b = Ka_64 self;
         c = fmul (fneg (Ka_64 self)) (c0_64 self)
     in fsub (fmul b b) (fmul (fmul (Fin 4) a) c))"

definition candidates_64 :: "WeakAcidSystem64 \<Rightarrow> py_exception + pyfloat list" where
  "candidates_64 self =
    (let a = Fin 1;
         b = Ka_64 self;
         disc = disc_64 self
     in if flt disc (Fin 0) then Inl (ValueError_of NoRealSolution)
        else
          case math_sqrt_64 disc of
            Inl e \<Rightarrow> Inl e
          | Inr r1 \<Rightarrow>
              (case fdiv (fadd (fneg b) r1) (fmul (Fin 2) a) of
                 Inl e \<Rightarrow> Inl e
               | Inr x1 \<Rightarrow>
                   (case math_sqrt_64 disc of
                      Inl e \<Rightarrow> Inl e
                    | Inr r2 \<Rightarrow>
                        (case fdiv (fsub (fneg b) r2) (fmul (Fin 2) a) of
                           Inl e \<Rightarrow> Inl e
                         | Inr x2 \<Rightarrow>
                             Inr (filter (\<lambda>x. fle (Fin 0) x \<and> fle x (c0_64 self))
                                   [x1, x2])))))"

definition solve_equilibrium_64 ::
    "WeakAcidSystem64 \<Rightarrow> py_exception + EquilibriumResult64" where
  "solve_equilibrium_64 self =
    (case candidates_64 self of
       Inl e \<Rightarrow> Inl e
     | Inr candidates \<Rightarrow>
         if candidates = [] then Inl (ValueError_of NoPhysicalSolution)
         else
           case max_list_64 candidates of
             Inl e \<Rightarrow> Inl e
           | Inr x \<Rightarrow>
               (let h_conc = x;
                    a_minus_conc = x;
                    ha_conc = fsub (c0_64 self) x
                in case math_log10_64 h_conc of
                     Inl e \<Rightarrow> Inl e
                   | Inr l \<Rightarrow>
                       Inr \<lparr>h_plus_64 = h_conc, a_minus_64 = a_minus_conc,
                            ha_64 = ha_conc, pH_64 = fneg l\<rparr>))"

section \<open>Facts about the solver over exact arithmetic\<close>

text \<open>
  The solver in terms of the intermediate values: the two calls of \<open>math.sqrt\<close> stand
  behind the test \<open>disc < 0\<close> and cannot raise.
\<close>

lemma solve_equilibrium_unfold:
  "solve_equilibrium s =
    (if disc_of s < 0 then Inl NoRealSolution
     else if candidates_of s = [] then Inl NoPhysicalSolution
     else case max_list (candidates_of s) of
            Inl e \<Rightarrow> Inl e
          | Inr x \<Rightarrow>
              (case math_log10 x of
                 Inl e \<Rightarrow> Inl e
               | Inr l \<Rightarrow> Inr \<lparr>h_plus = x, a_minus = x, ha = c0 s - x, pH = - l\<rparr>))"
  by (simp add: solve_equilibrium_def disc_of_def x1_of_def x2_of_def candidates_of_def
      math_sqrt_def Let_def)

lemma disc_of_eq: "disc_of s = (Ka s)\<^sup>2 + 4 * Ka s * c0 s"
  by (simp add: disc_of_def power2_eq_square)

lemma disc_of_nonneg:
  assumes "0 \<le> c0 s" and "0 \<le> Ka s"
  shows "0 \<le> disc_of s"
  using assms by (simp add: disc_of_eq)

lemma x1_of_root:
  assumes "0 \<le> disc_of s"
  shows "(x1_of s)\<^sup>2 + Ka s * x1_of s - Ka s * c0 s = 0"
proof -
  define r where "r = sqrt (disc_of s)"
  have rr: "r\<^sup>2 = (Ka s)\<^sup>2 + 4 * Ka s * c0 s"
    using assms by (simp add: r_def disc_of_eq [symmetric])
  have x: "x1_of s = (r - Ka s) / 2"
    by (simp add: x1_of_def r_def)
  have "(x1_of s)\<^sup>2 + Ka s * x1_of s - Ka s * c0 s
      = (r\<^sup>2 - (Ka s)\<^sup>2 - 4 * Ka s * c0 s) / 4"
    unfolding x by (simp add: power2_eq_square field_simps)
  also have "\<dots> = 0" by (simp add: rr)
  finally show ?thesis .
qed

lemma x1_of_pos:
  assumes "0 < c0 s" and "0 < Ka s"
  shows "0 < x1_of s"
proof -
  have "(Ka s)\<^sup>2 < disc_of s"
    using assms by (simp add: disc_of_eq)
  then have "sqrt ((Ka s)\<^sup>2) < sqrt (disc_of s)"
    by (simp only: real_sqrt_less_iff)
  then have "Ka s < sqrt (disc_of s)"
    using assms by simp
  then show ?thesis by (simp add: x1_of_def)
qed

lemma x1_of_le_c0:
  assumes "0 \<le> c0 s" and "0 \<le> Ka s"
  shows "x1_of s \<le> c0 s"
proof -
  have "disc_of s \<le> (Ka s + 2 * c0 s)\<^sup>2"
    by (simp add: disc_of_eq power2_eq_square algebra_simps)
  then have "sqrt (disc_of s) \<le> sqrt ((Ka s + 2 * c0 s)\<^sup>2)"
    by (simp only: real_sqrt_le_iff)
  then have "sqrt (disc_of s) \<le> Ka s + 2 * c0 s"
    using assms by simp
  then show ?thesis by (simp add: x1_of_def)
qed

lemma x2_of_neg:
  assumes "0 < Ka s" and "0 \<le> disc_of s"
  shows "x2_of s < 0"
proof -
  have "0 \<le> sqrt (disc_of s)" using assms by simp
  then have "- Ka s - sqrt (disc_of s) < 0" using assms by linarith
  then show ?thesis unfolding x2_of_def by simp
qed

lemma candidates_of_positive:
  assumes "0 < c0 s" and "0 < Ka s"
  shows "candidates_of s = [x1_of s]"
proof -
  have d: "0 \<le> disc_of s" using assms by (simp add: disc_of_nonneg)
  have "0 \<le> x1_of s" using x1_of_pos [OF assms] by simp
  moreover have "x1_of s \<le> c0 s" using assms by (simp add: x1_of_le_c0)
  moreover have "\<not> 0 \<le> x2_of s" using x2_of_neg [OF assms(2) d] by simp
  ultimately show ?thesis by (simp add: candidates_of_def)
qed

lemma solve_equilibrium_positive:
  assumes "0 < c0 s" and "0 < Ka s"
  shows "solve_equilibrium s =
    Inr \<lparr>h_plus = x1_of s, a_minus = x1_of s, ha = c0 s - x1_of s,
         pH = - log 10 (x1_of s)\<rparr>"
proof -
  have d: "\<not> disc_of s < 0" using assms by (simp add: disc_of_nonneg not_less)
  have l: "math_log10 (x1_of s) = Inr (log 10 (x1_of s))"
    using x1_of_pos [OF assms] by (simp add: math_log10_def)
  show ?thesis
    by (simp add: solve_equilibrium_unfold d candidates_of_positive [OF assms] l)
qed

lemma max_list_mem: "max_list xs = Inr x \<Longrightarrow> x \<in> set xs"
proof (cases xs)
  case Nil
  assume "max_list xs = Inr x"
  then show ?thesis using Nil by simp
next
  case (Cons v vs)
  have "foldl max w ws \<in> set (w # ws)" for w :: real and ws
  proof (induction ws arbitrary: w)
    case Nil
    show ?case by simp
  next
    case (Cons u us)
    have "foldl max (max w u) us \<in> set (max w u # us)" by (rule Cons.IH)
    moreover have "max w u = w \<or> max w u = u" by (simp add: max_def)
    ultimately show ?case by auto
  qed
  moreover assume "max_list xs = Inr x"
  ultimately show ?thesis using Cons by auto
qed

text \<open>What a returning call returns: the selected root is a member of the filtered list
  and is positive, since \<open>math.log10\<close> accepted it.\<close>

lemma solve_equilibrium_Inr:
  assumes "solve_equilibrium s = Inr r"
  shows "\<exists>x. x \<in> set (candidates_of s) \<and> 0 < x
    \<and> r = \<lparr>h_plus = x, a_minus = x, ha = c0 s - x, pH = - log 10 x\<rparr>"
proof -
  from assms obtain x where m: "max_list (candidates_of s) = Inr x"
    and l: "(case math_log10 x of Inl e \<Rightarrow> Inl e
              | Inr l \<Rightarrow> Inr \<lparr>h_plus = x, a_minus = x, ha = c0 s - x, pH = - l\<rparr>) = Inr r"
    by (auto simp: solve_equilibrium_unfold split: if_splits sum.splits)
  from l have "0 < x" and "r = \<lparr>h_plus = x, a_minus = x, ha = c0 s - x, pH = - log 10 x\<rparr>"
    by (auto simp: math_log10_def split: if_splits)
  with max_list_mem [OF m] show ?thesis by blast
qed

text \<open>A call worked by hand: \<open>c0 = 2\<close>, \<open>Ka = 1\<close> gives \<open>disc = 9\<close>, the roots \<open>1\<close> and
  \<open>-2\<close>, the list \<open>[1]\<close> and \<open>pH = - log10 1 = 0\<close>.\<close>

lemma example_2_1:
  "solve_equilibrium \<lparr>c0 = 2, Ka = 1\<rparr> = Inr \<lparr>h_plus = 1, a_minus = 1, ha = 1, pH = 0\<rparr>"
  by (simp add: solve_equilibrium_def math_sqrt_def math_log10_def Let_def)

text \<open>
  The larger root grows with \<open>Ka\<close>: the root \<open>y\<close> for \<open>Ka = k\<close> satisfies
  \<open>y\<^sup>2 = k (c - y)\<close> with \<open>0 < y \<le> c\<close>, so the quadratic for \<open>k' \<ge> k\<close> is not
  positive at \<open>y\<close>, and \<open>y\<close> cannot lie beyond its larger root.
\<close>

lemma x1_of_mono:
  assumes c: "0 < c" and k: "0 < k" and kk: "k \<le> k'"
  shows "x1_of \<lparr>c0 = c, Ka = k\<rparr> \<le> x1_of \<lparr>c0 = c, Ka = k'\<rparr>"
proof -
  define y where "y = x1_of \<lparr>c0 = c, Ka = k\<rparr>"
  have d: "0 \<le> disc_of \<lparr>c0 = c, Ka = k\<rparr>"
    using c k by (simp add: disc_of_nonneg)
  have root: "y\<^sup>2 + k * y - k * c = 0"
    using x1_of_root [OF d] by (simp add: y_def)
  have y0: "0 < y"
    using x1_of_pos [of "\<lparr>c0 = c, Ka = k\<rparr>"] c k by (simp add: y_def)
  have yc: "y \<le> c"
    using x1_of_le_c0 [of "\<lparr>c0 = c, Ka = k\<rparr>"] c k by (simp add: y_def)
  have "k * (c - y) \<le> k' * (c - y)"
    using kk yc by (simp add: mult_right_mono)
  with root have neg: "y\<^sup>2 + k' * y - k' * c \<le> 0"
    by (simp add: algebra_simps)
  have "(2 * y + k')\<^sup>2 = 4 * (y\<^sup>2 + k' * y - k' * c) + (k'\<^sup>2 + 4 * k' * c)"
    by (simp add: power2_eq_square algebra_simps)
  also have "\<dots> \<le> k'\<^sup>2 + 4 * k' * c"
    using neg by simp
  finally have "(2 * y + k')\<^sup>2 \<le> disc_of \<lparr>c0 = c, Ka = k'\<rparr>"
    by (simp add: disc_of_eq)
  then have "sqrt ((2 * y + k')\<^sup>2) \<le> sqrt (disc_of \<lparr>c0 = c, Ka = k'\<rparr>)"
    by (simp only: real_sqrt_le_iff)
  moreover have "0 \<le> 2 * y + k'" using y0 k kk by simp
  ultimately have "2 * y + k' \<le> sqrt (disc_of \<lparr>c0 = c, Ka = k'\<rparr>)"
    by simp
  then have "y \<le> x1_of \<lparr>c0 = c, Ka = k'\<rparr>"
    by (simp add: x1_of_def)
  then show ?thesis by (simp add: y_def)
qed

text \<open>
  Bounds on \<open>log10\<close> from integer powers, and one squaring step of a lower bound.
\<close>

lemma log10_lower:
  fixes y :: real
  assumes "0 < y" and "0 < n" and "10 ^ m \<le> y ^ n"
  shows "real m / real n \<le> log 10 y"
proof -
  have "real m \<le> log 10 (y ^ n)"
    using assms(3) by (rule le_log_of_power) simp
  then have "real m \<le> real n * log 10 y"
    using assms by (simp add: log_nat_power)
  then show ?thesis
    using assms by (simp add: field_simps)
qed

lemma log10_upper:
  fixes y :: real
  assumes "0 < y" and "0 < n" and "y ^ n < 10 ^ m"
  shows "log 10 y < real m / real n"
proof -
  have "0 < y ^ n" using assms by simp
  then have "log 10 (y ^ n) < real m"
    using assms(3) by (simp add: log_less_iff powr_realpow)
  then have "real n * log 10 y < real m"
    using assms by (simp add: log_nat_power)
  then show ?thesis
    using assms by (simp add: field_simps)
qed

lemma square_step:
  fixes y :: real
  assumes "a \<le> y ^ n" and "0 \<le> a" and "b \<le> a * a"
  shows "b \<le> y ^ (2 * n)"
proof -
  have "a * a \<le> y ^ n * y ^ n"
    using assms by (simp add: mult_mono)
  also have "\<dots> = y ^ (2 * n)"
    by (simp add: power_add [symmetric] mult_2)
  finally show ?thesis using assms by simp
qed

text \<open>
  The call with \<open>c0 = 0.1\<close> and \<open>Ka = 1.8e-5\<close>, written \<open>1 / 10\<close> and
  \<open>18 / 1000000\<close>: \<open>disc = 7.200324e-6\<close>, its square root lies between \<open>2.68334e-3\<close> and
  \<open>2.68335e-3\<close>, the larger root between \<open>1.33267e-3\<close> and \<open>1.332675e-3\<close>, and its
  \<open>log10\<close> between \<open>-739/257\<close> and \<open>-23/8\<close>.
\<close>

lemma scenario_x1:
  defines "S \<equiv> \<lparr>c0 = 1 / 10, Ka = 18 / 1000000\<rparr>"
  shows "133267 / 10 ^ 8 < x1_of S" and "x1_of S < 1332675 / 10 ^ 9"
proof -
  have k: "Ka S = 18 / 1000000" and c: "c0 S = 1 / 10"
    by (simp_all add: S_def)
  have d: "disc_of S = 7200324 / 10 ^ 12"
    unfolding disc_of_eq k c by (simp add: power2_eq_square)
  have lo: "268334 / 10 ^ 8 < sqrt (disc_of S)"
    unfolding d by (rule real_less_rsqrt) (simp add: power2_eq_square)
  have hi: "sqrt (disc_of S) < 268335 / 10 ^ 8"
    unfolding d by (rule real_less_lsqrt) (simp_all add: power2_eq_square)
  show "133267 / 10 ^ 8 < x1_of S"
    unfolding x1_of_def k using lo by simp
  show "x1_of S < 1332675 / 10 ^ 9"
    unfolding x1_of_def k using hi by simp
qed

lemma scenario_log:
  "- (739 / 257) \<le> log 10 (x1_of \<lparr>c0 = 1 / 10, Ka = 18 / 1000000\<rparr>)"
  "log 10 (x1_of \<lparr>c0 = 1 / 10, Ka = 18 / 1000000\<rparr>) < - (23 / 8)"
proof -
  define x where "x = x1_of \<lparr>c0 = 1 / 10, Ka = 18 / 1000000\<rparr>"
  define y where "y = 1000 * x"
  have x0: "0 < x" using scenario_x1(1) by (simp add: x_def)
  have y0: "0 < y" using x0 by (simp add: y_def)
  have lo: "133267 / 100000 \<le> y" using scenario_x1(1) by (simp add: y_def x_def)
  have hi: "y < 1332675 / 1000000" using scenario_x1(2) by (simp add: y_def x_def)
  have xy: "log 10 y = 3 + log 10 x"
  proof -
    have "log 10 (1000::real) = 3"
      using log_pow_cancel [of "10::real" 3] by simp
    moreover have "log 10 y = log 10 1000 + log 10 x"
      using x0 by (simp add: y_def log_mult)
    ultimately show ?thesis by simp
  qed
  have a0: "133267 / 100000 \<le> y ^ 1" using lo by simp
  have a1: "1776 / 1000 \<le> y ^ 2" using square_step [OF a0, of "1776 / 1000"] by simp
  have a2: "3154 / 1000 \<le> y ^ 4" using square_step [OF a1, of "3154 / 1000"] by simp
  have a3: "9947 / 1000 \<le> y ^ 8" using square_step [OF a2, of "9947 / 1000"] by simp
  have a4: "9894 / 100 \<le> y ^ 16" using square_step [OF a3, of "9894 / 100"] by simp
  have a5: "9789 \<le> y ^ 32" using square_step [OF a4, of "9789"] by simp
  have a6: "95820000 \<le> y ^ 64" using square_step [OF a5, of "95820000"] by simp
  have a7: "9181 * 10 ^ 12 \<le> y ^ 128" using square_step [OF a6, of "9181 * 10 ^ 12"] by simp
  have a8: "8429 * 10 ^ 28 \<le> y ^ 256" using square_step [OF a7, of "8429 * 10 ^ 28"] by simp
  have "(10::real) ^ 32 \<le> 8429 * 10 ^ 28 * (133267 / 100000)" by simp
  also have "\<dots> \<le> y ^ 256 * y"
    using a8 lo by (intro mult_mono) simp_all
  also have "\<dots> = y ^ 257" by (simp add: power_Suc2 [symmetric] del: power_Suc)
  finally have "(10::real) ^ 32 \<le> y ^ 257" .
  from log10_lower [OF y0 _ this] have "32 / 257 \<le> log 10 y" by simp
  then show "- (739 / 257) \<le> log 10 (x1_of \<lparr>c0 = 1 / 10, Ka = 18 / 1000000\<rparr>)"
    unfolding xy x_def by simp
  have "y ^ 8 < (1332675 / 1000000) ^ 8"
    using hi y0 by (intro power_strict_mono) simp_all
  also have "\<dots> < 10 ^ 1" by (simp add: power_divide)
  finally have "y ^ 8 < 10 ^ 1" .
  from log10_upper [OF y0 _ this] have "log 10 y < 1 / 8" by simp
  then show "log 10 (x1_of \<lparr>c0 = 1 / 10, Ka = 18 / 1000000\<rparr>) < - (23 / 8)"
    unfolding xy x_def by simp
qed

lemma scenario_solve:
  "solve_equilibrium \<lparr>c0 = 1 / 10, Ka = 18 / 1000000\<rparr> =
    Inr \<lparr>h_plus = x1_of \<lparr>c0 = 1 / 10, Ka = 18 / 1000000\<rparr>,
         a_minus = x1_of \<lparr>c0 = 1 / 10, Ka = 18 / 1000000\<rparr>,
         ha = 1 / 10 - x1_of \<lparr>c0 = 1 / 10, Ka = 18 / 1000000\<rparr>,
         pH = - log 10 (x1_of \<lparr>c0 = 1 / 10, Ka = 18 / 1000000\<rparr>)\<rparr>"
  using solve_equilibrium_positive [of "\<lparr>c0 = 1 / 10, Ka = 18 / 1000000\<rparr>"] by simp

text \<open>With \<open>c0 = 0\<close> and \<open>Ka > 0\<close> the exact roots are \<open>0\<close> and \<open>-Ka\<close>, and
  \<open>math.log10 0\<close> raises.\<close>

lemma solve_equilibrium_zero_c0:
  assumes "0 < k"
  shows "solve_equilibrium \<lparr>c0 = 0, Ka = k\<rparr> = Inl MathDomainError"
proof -
  have d: "disc_of \<lparr>c0 = 0, Ka = k\<rparr> = k\<^sup>2" by (simp add: disc_of_eq)
  have x1: "x1_of \<lparr>c0 = 0, Ka = k\<rparr> = 0" using assms by (simp add: x1_of_def d)
  have x2: "x2_of \<lparr>c0 = 0, Ka = k\<rparr> = - k" using assms by (simp add: x2_of_def d)
  have cs: "candidates_of \<lparr>c0 = 0, Ka = k\<rparr> = [0]"
    using assms by (simp add: candidates_of_def x1 x2)
  have l: "math_log10 0 = Inl MathDomainError" by (simp add: math_log10_def)
  show ?thesis
    by (simp add: solve_equilibrium_unfold d cs l)
qed

section \<open>Facts about rounding\<close>

text \<open>
  Powers of two, the exponent of a real, and rounding to an integer.
\<close>

lemma pow2_pos: "0 < pow2 k"
  by (simp add: pow2_def)

lemma pow2_add: "pow2 (j + k) = pow2 j * pow2 k"
  by (simp add: pow2_def powr_add)

lemma pow2_mono: "j \<le> k \<Longrightarrow> pow2 j \<le> pow2 k"
  by (simp add: pow2_def)

lemma pow2_nat: "0 \<le> k \<Longrightarrow> pow2 k = 2 ^ nat k"
  by (simp add: pow2_def powr_int)

lemma pow2_neg: "k < 0 \<Longrightarrow> pow2 k = 1 / 2 ^ nat (- k)"
  by (simp add: pow2_def powr_int)

lemma pow2_numeral: "pow2 (numeral n) = 2 ^ numeral n"
  by (simp add: pow2_nat)

lemma pow2_neg_numeral: "pow2 (- numeral n) = 1 / 2 ^ numeral n"
  by (simp add: pow2_neg)

lemma pow2_0: "pow2 0 = 1"
  by (simp add: pow2_def)

lemma pow2_1: "pow2 1 = 2"
  by (simp add: pow2_def)

lemma pow2_m1: "pow2 (- 1) = 1 / 2"
  by (simp add: pow2_neg)

lemmas pow2_eval = pow2_numeral pow2_neg_numeral pow2_0 pow2_1 pow2_m1

lemma floor_log2:
  assumes "pow2 e \<le> \<bar>x\<bar>" and "\<bar>x\<bar> < pow2 (e + 1)"
  shows "\<lfloor>log 2 \<bar>x\<bar>\<rfloor> = e"
proof -
  have "0 < \<bar>x\<bar>" using assms(1) pow2_pos [of e] by linarith
  then show ?thesis
    using assms by (simp add: floor_log_eq_powr_iff pow2_def)
qed

lemma round_ties_even_of_int: "round_ties_even (of_int m) = m"
  by (simp add: round_ties_even_def)

lemma round_ties_even_near:
  assumes "of_int n - 1 / 2 < y" and "y < of_int n + 1 / 2"
  shows "round_ties_even y = n"
proof (cases "of_int n \<le> y")
  case True
  then have "\<lfloor>y\<rfloor> = n" using assms by (simp add: floor_eq_iff)
  then show ?thesis using assms by (simp add: round_ties_even_def)
next
  case False
  then have "\<lfloor>y\<rfloor> = n - 1" using assms by (simp add: floor_eq_iff)
  then show ?thesis using assms False by (simp add: round_ties_even_def)
qed

lemma round_ties_even_tie:
  assumes "y = of_int n + 1 / 2"
  shows "round_ties_even y = (if even n then n else n + 1)"
proof -
  have "\<lfloor>y\<rfloor> = n" using assms by (simp add: floor_eq_iff)
  then show ?thesis using assms by (simp add: round_ties_even_def)
qed

text \<open>
  Rounding to binary64, case by case: a value in the normal range that is not half way
  between two floats, one that is, the same two cases in the subnormal range, a value too
  large for a finite float, a value that is a float already, and a square root.
\<close>

lemma b64_round_unfold:
  assumes "x \<noteq> 0"
    and "max \<lfloor>log 2 \<bar>x\<bar>\<rfloor> (- 1022) = e"
    and "round_ties_even (x / pow2 (e - 52)) = n"
    and "\<bar>of_int n * pow2 (e - 52)\<bar> < 2 ^ 1024"
  shows "b64_round x = Fin (of_int n * pow2 (e - 52))"
  using assms by (simp add: b64_round_def Let_def)

lemma b64_round_normal:
  assumes "pow2 e \<le> \<bar>x\<bar>" and "\<bar>x\<bar> < pow2 (e + 1)" and "- 1022 \<le> e"
    and "(of_int n - 1 / 2) * pow2 (e - 52) < x"
    and "x < (of_int n + 1 / 2) * pow2 (e - 52)"
    and "\<bar>of_int n * pow2 (e - 52)\<bar> < 2 ^ 1024"
  shows "b64_round x = Fin (of_int n * pow2 (e - 52))"
proof (rule b64_round_unfold)
  show "x \<noteq> 0" using assms(1) pow2_pos [of e] by auto
  show "max \<lfloor>log 2 \<bar>x\<bar>\<rfloor> (- 1022) = e"
    using floor_log2 [OF assms(1,2)] assms(3) by simp
  have q: "0 < pow2 (e - 52)" by (rule pow2_pos)
  show "round_ties_even (x / pow2 (e - 52)) = n"
    using assms(4,5) q by (intro round_ties_even_near) (simp_all add: field_simps)
  show "\<bar>of_int n * pow2 (e - 52)\<bar> < 2 ^ 1024" by fact
qed

lemma round_ties_even_tie_down:
  assumes "y = of_int (2 * h) + 1 / 2"
  shows "round_ties_even y = 2 * h"
  using round_ties_even_tie [OF assms] by simp

lemma round_ties_even_tie_up:
  assumes "y = of_int (2 * h + 1) + 1 / 2"
  shows "round_ties_even y = 2 * h + 2"
  using round_ties_even_tie [OF assms] by simp

lemma b64_round_normal_tie:
  assumes "pow2 e \<le> \<bar>x\<bar>" and "\<bar>x\<bar> < pow2 (e + 1)" and "- 1022 \<le> e"
    and "x = (of_int m + 1 / 2) * pow2 (e - 52) \<or> x = (of_int m - 1 / 2) * pow2 (e - 52)"
    and "m = 2 * h"
    and "\<bar>of_int m * pow2 (e - 52)\<bar> < 2 ^ 1024"
  shows "b64_round x = Fin (of_int m * pow2 (e - 52))"
proof (rule b64_round_unfold)
  show "x \<noteq> 0" using assms(1) pow2_pos [of e] by auto
  show "max \<lfloor>log 2 \<bar>x\<bar>\<rfloor> (- 1022) = e"
    using floor_log2 [OF assms(1,2)] assms(3) by simp
  from assms(4) have "x / pow2 (e - 52) = of_int (2 * h) + 1 / 2
      \<or> x / pow2 (e - 52) = of_int (2 * (h - 1) + 1) + 1 / 2"
    using pow2_pos [of "e - 52"] by (auto simp: assms(5))
  then show "round_ties_even (x / pow2 (e - 52)) = m"
    using round_ties_even_tie_down [of "x / pow2 (e - 52)" h]
      round_ties_even_tie_up [of "x / pow2 (e - 52)" "h - 1"]
    by (auto simp: assms(5))
  show "\<bar>of_int m * pow2 (e - 52)\<bar> < 2 ^ 1024" by fact
qed

lemma log2_subnormal:
  assumes "x \<noteq> 0" and "\<bar>x\<bar> < pow2 (- 1022)"
  shows "max \<lfloor>log 2 \<bar>x\<bar>\<rfloor> (- 1022) = - 1022"
proof -
  have "0 < \<bar>x\<bar>" using assms(1) by simp
  then have "log 2 \<bar>x\<bar> < - 1022"
    using assms(2) by (simp add: log_less_iff pow2_def)
  then have "\<lfloor>log 2 \<bar>x\<bar>\<rfloor> < - 1022"
    by (simp add: floor_less_iff)
  then show ?thesis by simp
qed

lemma b64_round_subnormal:
  assumes "x \<noteq> 0" and "\<bar>x\<bar> < pow2 (- 1022)"
    and "(of_int n - 1 / 2) * pow2 (- 1074) < x"
    and "x < (of_int n + 1 / 2) * pow2 (- 1074)"
  shows "b64_round x = Fin (of_int n * pow2 (- 1074))"
proof -
  have e: "max \<lfloor>log 2 \<bar>x\<bar>\<rfloor> (- 1022) = - 1022"
    by (rule log2_subnormal [OF assms(1,2)])
  have q: "0 < pow2 (- 1074)" by (rule pow2_pos)
  have n: "round_ties_even (x / pow2 (- 1022 - 52)) = n"
    using assms(3,4) q by (intro round_ties_even_near) (simp_all add: field_simps)
  have "\<bar>of_int n\<bar> * pow2 (- 1074) < \<bar>x\<bar> + pow2 (- 1074)"
    using assms(3,4) q by (simp add: abs_if field_simps)
  also have "\<dots> < pow2 (- 1022) + pow2 (- 1074)" using assms(2) by simp
  also have "\<dots> < 2 ^ 1024" by (simp add: pow2_eval)
  finally have "\<bar>of_int n * pow2 (- 1022 - 52)\<bar> < 2 ^ 1024"
    using q by (simp add: abs_mult)
  from b64_round_unfold [OF assms(1) e n this] show ?thesis by simp
qed

lemma b64_round_subnormal_tie:
  assumes "x = (of_int m + 1 / 2) * pow2 (- 1074) \<or> x = (of_int m - 1 / 2) * pow2 (- 1074)"
    and "m = 2 * h"
    and "\<bar>x\<bar> < pow2 (- 1022)"
  shows "b64_round x = Fin (of_int m * pow2 (- 1074))"
proof -
  have q: "0 < pow2 (- 1074)" by (rule pow2_pos)
  have x0: "x \<noteq> 0"
  proof
    assume "x = 0"
    with assms(1) q have "of_int m + 1 / 2 = (0::real) \<or> of_int m - 1 / 2 = (0::real)"
      by auto
    then have "of_int (2 * m + 1) = (0::real) \<or> of_int (2 * m - 1) = (0::real)"
      by auto
    then have "2 * m + 1 = 0 \<or> 2 * m - 1 = 0" by (simp only: of_int_eq_0_iff)
    then show False by presburger
  qed
  have e: "max \<lfloor>log 2 \<bar>x\<bar>\<rfloor> (- 1022) = - 1022"
    by (rule log2_subnormal [OF x0 assms(3)])
  from assms(1) have "x / pow2 (- 1022 - 52) = of_int (2 * h) + 1 / 2
      \<or> x / pow2 (- 1022 - 52) = of_int (2 * (h - 1) + 1) + 1 / 2"
    using q by (auto simp: assms(2))
  then have n: "round_ties_even (x / pow2 (- 1022 - 52)) = m"
    using round_ties_even_tie_down [of "x / pow2 (- 1022 - 52)" h]
      round_ties_even_tie_up [of "x / pow2 (- 1022 - 52)" "h - 1"]
    by (auto simp: assms(2))
  have "\<bar>of_int m * pow2 (- 1074) - x\<bar> \<le> pow2 (- 1074)"
    using q assms(1) by (auto simp: abs_if field_simps)
  then have "\<bar>of_int m * pow2 (- 1074)\<bar> \<le> \<bar>x\<bar> + pow2 (- 1074)"
    by linarith
  also have "\<dots> < pow2 (- 1022) + pow2 (- 1074)" using assms(3) by simp
  also have "\<dots> < 2 ^ 1024" by (simp add: pow2_eval)
  finally have "\<bar>of_int m * pow2 (- 1022 - 52)\<bar> < 2 ^ 1024"
    by simp
  from b64_round_unfold [OF x0 e n this] show ?thesis by simp
qed

lemma round_ties_even_ge_floor: "\<lfloor>y\<rfloor> \<le> round_ties_even y"
  by (simp add: round_ties_even_def Let_def)

lemma b64_round_overflow:
  assumes "2 ^ 1024 \<le> x"
  shows "b64_round x = PInf"
proof -
  have x0: "0 < x" using assms by (smt (verit) zero_less_power)
  define E where "E = \<lfloor>log 2 \<bar>x\<bar>\<rfloor>"
  have "pow2 1024 \<le> \<bar>x\<bar>" using assms x0 by (simp add: pow2_eval)
  then have "1024 \<le> log 2 \<bar>x\<bar>"
    using x0 by (simp add: le_log_iff pow2_def)
  then have E: "1024 \<le> E" by (simp add: E_def le_floor_iff)
  have lo: "pow2 E \<le> \<bar>x\<bar>"
    using x0 floor_log_eq_powr_iff [of "\<bar>x\<bar>" 2 E] by (simp add: E_def pow2_def)
  have q: "0 < pow2 (E - 52)" by (rule pow2_pos)
  have split: "pow2 E = pow2 52 * pow2 (E - 52)"
    using pow2_add [of 52 "E - 52"] by simp
  from split have "2 ^ 52 \<le> x / pow2 (E - 52)"
    using lo q x0 by (simp add: pow2_eval field_simps)
  then have "(2::int) ^ 52 \<le> \<lfloor>x / pow2 (E - 52)\<rfloor>"
    by (simp add: le_floor_iff)
  then have "(2::int) ^ 52 \<le> round_ties_even (x / pow2 (E - 52))"
    using round_ties_even_ge_floor [of "x / pow2 (E - 52)"] by linarith
  then have "(of_int ((2::int) ^ 52) :: real) \<le> of_int (round_ties_even (x / pow2 (E - 52)))"
    by (simp only: of_int_le_iff)
  then have "(2::real) ^ 52 \<le> of_int (round_ties_even (x / pow2 (E - 52)))"
    by simp
  then have step: "pow2 52 * pow2 (E - 52)
      \<le> of_int (round_ties_even (x / pow2 (E - 52))) * pow2 (E - 52)"
    using q by (simp add: pow2_numeral)
  have "(2::real) ^ 1024 = pow2 1024" by (simp only: pow2_numeral)
  also have "\<dots> \<le> pow2 E" using E by (rule pow2_mono)
  also have "\<dots> = pow2 52 * pow2 (E - 52)" by (rule split)
  also note step
  finally have big: "2 ^ 1024 \<le> of_int (round_ties_even (x / pow2 (E - 52))) * pow2 (E - 52)" .
  have m: "max E (- 1022) = E" using E by simp
  from big have "2 ^ 1024 \<le> \<bar>of_int (round_ties_even (x / pow2 (E - 52))) * pow2 (E - 52)\<bar>"
    by linarith
  then show ?thesis
    using x0 by (simp only: b64_round_def Let_def E_def [symmetric] m if_True if_False) simp
qed

lemma b64_round_exact:
  assumes x: "x = of_int n * pow2 k" and n: "\<bar>n\<bar> < 2 ^ 53" and k: "- 1074 \<le> k"
    and fin: "\<bar>x\<bar> < 2 ^ 1024"
  shows "b64_round x = Fin x"
proof (cases "x = 0")
  case True
  then show ?thesis by (simp add: b64_round_def)
next
  case False
  define E where "E = \<lfloor>log 2 \<bar>x\<bar>\<rfloor>"
  define e where "e = max E (- 1022)"
  have xpos: "0 < \<bar>x\<bar>" using False by simp
  have "\<bar>x\<bar> = of_int \<bar>n\<bar> * pow2 k"
    using pow2_pos [of k] by (simp add: x abs_mult)
  also have "\<dots> < 2 ^ 53 * pow2 k"
  proof -
    have "(of_int \<bar>n\<bar> :: real) < of_int (2 ^ 53)" using n by (simp only: of_int_less_iff)
    then show ?thesis using pow2_pos [of k] by simp
  qed
  also have "\<dots> = pow2 (53 + k)" by (simp add: pow2_add pow2_eval)
  finally have "\<bar>x\<bar> < pow2 (53 + k)" .
  then have "log 2 \<bar>x\<bar> < of_int (53 + k)"
    using xpos by (simp add: log_less_iff pow2_def)
  then have "E < 53 + k" unfolding E_def by (simp add: floor_less_iff)
  then have ek: "e - 52 \<le> k" using k by (simp add: e_def)
  define j where "j = nat (k - (e - 52))"
  have kj: "k = (e - 52) + int j" using ek by (simp add: j_def)
  have pk: "pow2 k = pow2 (e - 52) * 2 ^ j"
    by (subst kj, subst pow2_add) (simp add: pow2_nat)
  from pk have "x / pow2 (e - 52) = of_int (n * 2 ^ j)"
    using pow2_pos [of "e - 52"] by (simp add: x)
  then have r: "round_ties_even (x / pow2 (e - 52)) = n * 2 ^ j"
    by (simp only: round_ties_even_of_int)
  have same: "of_int (n * 2 ^ j) * pow2 (e - 52) = x"
    using pk by (simp add: x)
  have m: "max \<lfloor>log 2 \<bar>x\<bar>\<rfloor> (- 1022) = e"
    by (simp only: e_def E_def)
  have "\<bar>of_int (n * 2 ^ j) * pow2 (e - 52)\<bar> < 2 ^ 1024"
    using fin by (simp only: same)
  from b64_round_unfold [OF False m r this] show ?thesis
    by (simp only: same)
qed

lemma b64_round_sqrt:
  assumes "(pow2 e)\<^sup>2 \<le> v" and "v < (pow2 (e + 1))\<^sup>2" and "- 1022 \<le> e" and "0 < n"
    and "((of_int n - 1 / 2) * pow2 (e - 52))\<^sup>2 < v"
    and "v < ((of_int n + 1 / 2) * pow2 (e - 52))\<^sup>2"
    and "\<bar>of_int n * pow2 (e - 52)\<bar> < 2 ^ 1024"
  shows "b64_round (sqrt v) = Fin (of_int n * pow2 (e - 52))"
proof (rule b64_round_normal)
  have v: "0 \<le> v" using assms(1) by (smt (verit) zero_le_power2)
  have "pow2 e \<le> sqrt v" using assms(1) by (rule real_le_rsqrt)
  then show "pow2 e \<le> \<bar>sqrt v\<bar>" by simp
  have "sqrt v < pow2 (e + 1)"
    using pow2_pos [of "e + 1"] assms(2) by (intro real_less_lsqrt) simp_all
  then show "\<bar>sqrt v\<bar> < pow2 (e + 1)" using v by simp
  show "- 1022 \<le> e" by fact
  show "(of_int n - 1 / 2) * pow2 (e - 52) < sqrt v"
    using assms(5) by (rule real_less_rsqrt)
  have "0 \<le> (of_int n + 1 / 2) * pow2 (e - 52)"
    using assms(4) pow2_pos [of "e - 52"] by simp
  then show "sqrt v < (of_int n + 1 / 2) * pow2 (e - 52)"
    using assms(6) by (intro real_less_lsqrt) simp_all
  show "\<bar>of_int n * pow2 (e - 52)\<bar> < 2 ^ 1024" by fact
qed

section \<open>Calls of the solver over binary64, operation by operation\<close>

text \<open>
  Each lemma follows one call through the source: a fact \<open>r0\<close>, \<open>r1\<close>, ... gives the float an
  operation of the call rounds to, and the call is then evaluated with these facts.
\<close>

lemma b64_round_0: "b64_round 0 = Fin 0"
  by (simp add: b64_round_def)

text \<open>
  The inputs of the calls below are floats: rounding leaves each as it is. \<open>0.1\<close> is the
  float \<open>3602879701896397 / 2 ^ 55\<close>, \<open>5e-324\<close> is \<open>1 / 2 ^ 1074\<close> and \<open>1e200\<close> is
  \<open>5883593420661338 * 2 ^ 612\<close>.
\<close>

lemma b64_inputs_are_floats:
  "b64_round (1 / 2 ^ 40) = Fin (1 / 2 ^ 40)
   \<and> b64_round (2 ^ 40) = Fin (2 ^ 40)
   \<and> b64_round (3 / 4) = Fin (3 / 4)
   \<and> b64_round (379924135) = Fin (379924135)
   \<and> b64_round (3602879701896397 / 2 ^ 55) = Fin (3602879701896397 / 2 ^ 55)
   \<and> b64_round (100000000) = Fin (100000000)
   \<and> b64_round (121 / 32) = Fin (121 / 32)
   \<and> b64_round (500000000) = Fin (500000000)
   \<and> b64_round (1000000000) = Fin (1000000000)
   \<and> b64_round (1 / 2 ^ 1074) = Fin (1 / 2 ^ 1074)
   \<and> b64_round (5883593420661338 * 2 ^ 612) = Fin (5883593420661338 * 2 ^ 612)"
proof -
  have r0: "b64_round (1 / 2 ^ 40) = Fin (1 / 2 ^ 40)"
    by (rule b64_round_exact [where n = "1" and k = "- 40"]) (simp_all add: pow2_eval)
  have r1: "b64_round (2 ^ 40) = Fin (2 ^ 40)"
    by (rule b64_round_exact [where n = "1" and k = "40"]) (simp_all add: pow2_eval)
  have r2: "b64_round (3 / 4) = Fin (3 / 4)"
    by (rule b64_round_exact [where n = "3" and k = "- 2"]) (simp_all add: pow2_eval)
  have r3: "b64_round (379924135) = Fin (379924135)"
    by (rule b64_round_exact [where n = "379924135" and k = "0"]) (simp_all add: pow2_eval)
  have r4: "b64_round (3602879701896397 / 2 ^ 55) = Fin (3602879701896397 / 2 ^ 55)"
    by (rule b64_round_exact [where n = "3602879701896397" and k = "- 55"]) (simp_all add: pow2_eval)
  have r5: "b64_round (100000000) = Fin (100000000)"
    by (rule b64_round_exact [where n = "390625" and k = "8"]) (simp_all add: pow2_eval)
  have r6: "b64_round (121 / 32) = Fin (121 / 32)"
    by (rule b64_round_exact [where n = "121" and k = "- 5"]) (simp_all add: pow2_eval)
  have r7: "b64_round (500000000) = Fin (500000000)"
    by (rule b64_round_exact [where n = "1953125" and k = "8"]) (simp_all add: pow2_eval)
  have r8: "b64_round (1000000000) = Fin (1000000000)"
    by (rule b64_round_exact [where n = "1953125" and k = "9"]) (simp_all add: pow2_eval)
  have r9: "b64_round (1 / 2 ^ 1074) = Fin (1 / 2 ^ 1074)"
    by (rule b64_round_exact [where n = "1" and k = "- 1074"]) (simp_all add: pow2_eval)
  have r10: "b64_round (5883593420661338 * 2 ^ 612) = Fin (5883593420661338 * 2 ^ 612)"
    by (rule b64_round_exact [where n = "2941796710330669" and k = "613"]) (simp_all add: pow2_eval)
  show ?thesis
    using r0 r1 r2 r3 r4 r5 r6 r7 r8 r9 r10 by simp
qed

lemma b64_call_2_1:
  "solve_equilibrium_64 \<lparr>c0_64 = Fin 2, Ka_64 = Fin 1\<rparr> = Inr \<lparr>h_plus_64 = Fin 1, a_minus_64 = Fin 1, ha_64 = Fin 1, pH_64 = Fin 0\<rparr>"
proof -
  have r0: "b64_round (- 2) = Fin (- 2)"
    by (rule b64_round_exact [where n = "- 1" and k = "1"]) (simp_all add: pow2_eval)
  have r1: "b64_round (1) = Fin (1)"
    by (rule b64_round_exact [where n = "1" and k = "0"]) (simp_all add: pow2_eval)
  have r2: "b64_round (4) = Fin (4)"
    by (rule b64_round_exact [where n = "1" and k = "2"]) (simp_all add: pow2_eval)
  have r3: "b64_round (- 8) = Fin (- 8)"
    by (rule b64_round_exact [where n = "- 1" and k = "3"]) (simp_all add: pow2_eval)
  have r4: "b64_round (9) = Fin (9)"
    by (rule b64_round_exact [where n = "9" and k = "0"]) (simp_all add: pow2_eval)
  have r5: "sqrt (9) = 3"
    by (rule real_sqrt_unique) (simp_all add: power2_eq_square)
  have r6: "b64_round (3) = Fin (3)"
    by (rule b64_round_exact [where n = "3" and k = "0"]) (simp_all add: pow2_eval)
  have r7: "b64_round (2) = Fin (2)"
    by (rule b64_round_exact [where n = "1" and k = "1"]) (simp_all add: pow2_eval)
  have r8: "b64_round (- 4) = Fin (- 4)"
    by (rule b64_round_exact [where n = "- 1" and k = "2"]) (simp_all add: pow2_eval)
  show ?thesis
    using r0 r1 r2 r3 r4 r5 r6 r7 r8
    by (simp add: solve_equilibrium_64_def candidates_64_def disc_64_def Let_def fsub_def fdiv_def
        flt_def fle_def math_sqrt_64_def math_log10_64_def b64_round_0)
qed

lemma b64_call_cancel:
  "solve_equilibrium_64 \<lparr>c0_64 = Fin (1 / 2 ^ 40), Ka_64 = Fin (2 ^ 40)\<rparr> = Inl (ValueError_of MathDomainError)"
proof -
  have r0: "b64_round (- 1) = Fin (- 1)"
    by (rule b64_round_exact [where n = "- 1" and k = "0"]) (simp_all add: pow2_eval)
  have r1: "b64_round (1208925819614629174706176) = Fin (1208925819614629174706176)"
    by (rule b64_round_exact [where n = "1" and k = "80"]) (simp_all add: pow2_eval)
  have r2: "b64_round (4) = Fin (4)"
    by (rule b64_round_exact [where n = "1" and k = "2"]) (simp_all add: pow2_eval)
  have r3: "b64_round (- 4) = Fin (- 4)"
    by (rule b64_round_exact [where n = "- 1" and k = "2"]) (simp_all add: pow2_eval)
  have r4: "b64_round (1208925819614629174706180) = Fin (1208925819614629174706176)"
    proof -
      have "b64_round (1208925819614629174706180) = Fin (of_int (4503599627370496) * pow2 (80 - 52))"
        by (rule b64_round_normal) (simp_all add: pow2_eval)
      then show ?thesis by (simp add: pow2_eval)
    qed
  have r5: "sqrt (1208925819614629174706176) = 1099511627776"
    by (rule real_sqrt_unique) (simp_all add: power2_eq_square)
  have r6: "b64_round (1099511627776) = Fin (1099511627776)"
    by (rule b64_round_exact [where n = "1" and k = "40"]) (simp_all add: pow2_eval)
  have r7: "b64_round (2) = Fin (2)"
    by (rule b64_round_exact [where n = "1" and k = "1"]) (simp_all add: pow2_eval)
  have r8: "b64_round (- 2199023255552) = Fin (- 2199023255552)"
    by (rule b64_round_exact [where n = "- 1" and k = "41"]) (simp_all add: pow2_eval)
  have r9: "b64_round (- 1099511627776) = Fin (- 1099511627776)"
    by (rule b64_round_exact [where n = "- 1" and k = "40"]) (simp_all add: pow2_eval)
  have r10: "b64_round (1 / 1099511627776) = Fin (1 / 1099511627776)"
    by (rule b64_round_exact [where n = "1" and k = "- 40"]) (simp_all add: pow2_eval)
  show ?thesis
    using r0 r1 r2 r3 r4 r5 r6 r7 r8 r9 r10
    by (simp add: solve_equilibrium_64_def candidates_64_def disc_64_def Let_def fsub_def fdiv_def
        flt_def fle_def math_sqrt_64_def math_log10_64_def b64_round_0)
qed

lemma b64_call_three_quarters:
  "solve_equilibrium_64 \<lparr>c0_64 = Fin (3 / 4), Ka_64 = Fin 379924135\<rparr> = Inl (ValueError_of NoPhysicalSolution)"
proof -
  have r0: "b64_round (- (1139772405 / 4)) = Fin (- (1139772405 / 4))"
    by (rule b64_round_exact [where n = "- 1139772405" and k = "- 2"]) (simp_all add: pow2_eval)
  have r1: "b64_round (144342348355498225) = Fin (144342348355498240)"
    proof -
      have "b64_round (144342348355498225) = Fin (of_int (4510698386109320) * pow2 (57 - 52))"
        by (rule b64_round_normal) (simp_all add: pow2_eval)
      then show ?thesis by (simp add: pow2_eval)
    qed
  have r2: "b64_round (4) = Fin (4)"
    by (rule b64_round_exact [where n = "1" and k = "2"]) (simp_all add: pow2_eval)
  have r3: "b64_round (- 1139772405) = Fin (- 1139772405)"
    by (rule b64_round_exact [where n = "- 1139772405" and k = "0"]) (simp_all add: pow2_eval)
  have r4: "b64_round (144342349495270645) = Fin (144342349495270656)"
    proof -
      have "b64_round (144342349495270645) = Fin (of_int (4510698421727208) * pow2 (57 - 52))"
        by (rule b64_round_normal) (simp_all add: pow2_eval)
      then show ?thesis by (simp add: pow2_eval)
    qed
  have r5: "b64_round (sqrt (144342349495270656)) = Fin (6374069301673985 / 16777216)"
    proof -
      have "b64_round (sqrt (144342349495270656)) = Fin (of_int (6374069301673985) * pow2 (28 - 52))"
        by (rule b64_round_sqrt) (simp_all add: pow2_eval power2_eq_square)
      then show ?thesis by (simp add: pow2_eval)
    qed
  have r6: "b64_round (2) = Fin (2)"
    by (rule b64_round_exact [where n = "1" and k = "1"]) (simp_all add: pow2_eval)
  have r7: "b64_round (25165825 / 16777216) = Fin (25165825 / 16777216)"
    by (rule b64_round_exact [where n = "25165825" and k = "- 24"]) (simp_all add: pow2_eval)
  have r8: "b64_round (25165825 / 33554432) = Fin (25165825 / 33554432)"
    by (rule b64_round_exact [where n = "25165825" and k = "- 25"]) (simp_all add: pow2_eval)
  have r9: "b64_round (- (12748138578182145 / 16777216)) = Fin (- (1519696543 / 2))"
    proof -
      have "b64_round (- (12748138578182145 / 16777216)) = Fin (of_int (- 6374069289091072) * pow2 (29 - 52))"
        by (rule b64_round_normal_tie [where h = "- 3187034644545536"]) (simp_all add: pow2_eval)
      then show ?thesis by (simp add: pow2_eval)
    qed
  have r10: "b64_round (- (1519696543 / 4)) = Fin (- (1519696543 / 4))"
    by (rule b64_round_exact [where n = "- 1519696543" and k = "- 2"]) (simp_all add: pow2_eval)
  show ?thesis
    using r0 r1 r2 r3 r4 r5 r6 r7 r8 r9 r10
    by (simp add: solve_equilibrium_64_def candidates_64_def disc_64_def Let_def fsub_def fdiv_def
        flt_def fle_def math_sqrt_64_def math_log10_64_def b64_round_0)
qed

lemma b64_call_tenth:
  "solve_equilibrium_64 \<lparr>c0_64 = Fin (3602879701896397 / 2 ^ 55), Ka_64 = Fin 100000000\<rparr> = Inl (ValueError_of NoPhysicalSolution)"
proof -
  have r0: "b64_round (- (1407374883553280078125 / 140737488355328)) = Fin (- 10000000)"
    proof -
      have "b64_round (- (1407374883553280078125 / 140737488355328)) = Fin (of_int (- 5368709120000000) * pow2 (23 - 52))"
        by (rule b64_round_normal) (simp_all add: pow2_eval)
      then show ?thesis by (simp add: pow2_eval)
    qed
  have r1: "b64_round (10000000000000000) = Fin (10000000000000000)"
    by (rule b64_round_exact [where n = "152587890625" and k = "16"]) (simp_all add: pow2_eval)
  have r2: "b64_round (4) = Fin (4)"
    by (rule b64_round_exact [where n = "1" and k = "2"]) (simp_all add: pow2_eval)
  have r3: "b64_round (- 40000000) = Fin (- 40000000)"
    by (rule b64_round_exact [where n = "- 78125" and k = "9"]) (simp_all add: pow2_eval)
  have r4: "b64_round (10000000040000000) = Fin (10000000040000000)"
    by (rule b64_round_exact [where n = "19531250078125" and k = "9"]) (simp_all add: pow2_eval)
  have r5: "b64_round (sqrt (10000000040000000)) = Fin (6710886413421773 / 67108864)"
    proof -
      have "b64_round (sqrt (10000000040000000)) = Fin (of_int (6710886413421773) * pow2 (26 - 52))"
        by (rule b64_round_sqrt) (simp_all add: pow2_eval power2_eq_square)
      then show ?thesis by (simp add: pow2_eval)
    qed
  have r6: "b64_round (2) = Fin (2)"
    by (rule b64_round_exact [where n = "1" and k = "1"]) (simp_all add: pow2_eval)
  have r7: "b64_round (13421773 / 67108864) = Fin (13421773 / 67108864)"
    by (rule b64_round_exact [where n = "13421773" and k = "- 26"]) (simp_all add: pow2_eval)
  have r8: "b64_round (13421773 / 134217728) = Fin (13421773 / 134217728)"
    by (rule b64_round_exact [where n = "13421773" and k = "- 27"]) (simp_all add: pow2_eval)
  have r9: "b64_round (- (13421772813421773 / 67108864)) = Fin (- (3355443203355443 / 16777216))"
    proof -
      have "b64_round (- (13421772813421773 / 67108864)) = Fin (of_int (- 6710886406710886) * pow2 (27 - 52))"
        by (rule b64_round_normal_tie [where h = "- 3355443203355443"]) (simp_all add: pow2_eval)
      then show ?thesis by (simp add: pow2_eval)
    qed
  have r10: "b64_round (- (3355443203355443 / 33554432)) = Fin (- (3355443203355443 / 33554432))"
    by (rule b64_round_exact [where n = "- 3355443203355443" and k = "- 25"]) (simp_all add: pow2_eval)
  show ?thesis
    using r0 r1 r2 r3 r4 r5 r6 r7 r8 r9 r10
    by (simp add: solve_equilibrium_64_def candidates_64_def disc_64_def Let_def fsub_def fdiv_def
        flt_def fle_def math_sqrt_64_def math_log10_64_def b64_round_0)
qed

lemma b64_call_5e8:
  "\<not> isl (solve_equilibrium_64 \<lparr>c0_64 = Fin (121 / 32), Ka_64 = Fin 500000000\<rparr>) \<and> h_plus_64 (projr (solve_equilibrium_64 \<lparr>c0_64 = Fin (121 / 32), Ka_64 = Fin 500000000\<rparr>)) = Fin (126877695 / 2 ^ 25)"
proof -
  have r0: "b64_round (- 1890625000) = Fin (- 1890625000)"
    by (rule b64_round_exact [where n = "- 236328125" and k = "3"]) (simp_all add: pow2_eval)
  have r1: "b64_round (250000000000000000) = Fin (250000000000000000)"
    by (rule b64_round_exact [where n = "3814697265625" and k = "16"]) (simp_all add: pow2_eval)
  have r2: "b64_round (4) = Fin (4)"
    by (rule b64_round_exact [where n = "1" and k = "2"]) (simp_all add: pow2_eval)
  have r3: "b64_round (- 7562500000) = Fin (- 7562500000)"
    by (rule b64_round_exact [where n = "- 236328125" and k = "5"]) (simp_all add: pow2_eval)
  have r4: "b64_round (250000007562500000) = Fin (250000007562500000)"
    by (rule b64_round_exact [where n = "7812500236328125" and k = "5"]) (simp_all add: pow2_eval)
  have r5: "b64_round (sqrt (250000007562500000)) = Fin (8388608126877695 / 16777216)"
    proof -
      have "b64_round (sqrt (250000007562500000)) = Fin (of_int (8388608126877695) * pow2 (28 - 52))"
        by (rule b64_round_sqrt) (simp_all add: pow2_eval power2_eq_square)
      then show ?thesis by (simp add: pow2_eval)
    qed
  have r6: "b64_round (2) = Fin (2)"
    by (rule b64_round_exact [where n = "1" and k = "1"]) (simp_all add: pow2_eval)
  have r7: "b64_round (126877695 / 16777216) = Fin (126877695 / 16777216)"
    by (rule b64_round_exact [where n = "126877695" and k = "- 24"]) (simp_all add: pow2_eval)
  have r8: "b64_round (126877695 / 33554432) = Fin (126877695 / 33554432)"
    by (rule b64_round_exact [where n = "126877695" and k = "- 25"]) (simp_all add: pow2_eval)
  have r9: "b64_round (- (16777216126877695 / 16777216)) = Fin (- (16000000121 / 16))"
    proof -
      have "b64_round (- (16777216126877695 / 16777216)) = Fin (of_int (- 8388608063438848) * pow2 (29 - 52))"
        by (rule b64_round_normal_tie [where h = "- 4194304031719424"]) (simp_all add: pow2_eval)
      then show ?thesis by (simp add: pow2_eval)
    qed
  have r10: "b64_round (- (16000000121 / 32)) = Fin (- (16000000121 / 32))"
    by (rule b64_round_exact [where n = "- 16000000121" and k = "- 5"]) (simp_all add: pow2_eval)
  have r11: "b64_round (1 / 33554432) = Fin (1 / 33554432)"
    by (rule b64_round_exact [where n = "1" and k = "- 25"]) (simp_all add: pow2_eval)
  show ?thesis
    using r0 r1 r2 r3 r4 r5 r6 r7 r8 r9 r10 r11
    by (simp add: solve_equilibrium_64_def candidates_64_def disc_64_def Let_def fsub_def fdiv_def
        flt_def fle_def math_sqrt_64_def math_log10_64_def b64_round_0)
qed

lemma b64_call_1e9:
  "\<not> isl (solve_equilibrium_64 \<lparr>c0_64 = Fin (121 / 32), Ka_64 = Fin 1000000000\<rparr>) \<and> h_plus_64 (projr (solve_equilibrium_64 \<lparr>c0_64 = Fin (121 / 32), Ka_64 = Fin 1000000000\<rparr>)) = Fin (63438847 / 2 ^ 24)"
proof -
  have r0: "b64_round (- 3781250000) = Fin (- 3781250000)"
    by (rule b64_round_exact [where n = "- 236328125" and k = "4"]) (simp_all add: pow2_eval)
  have r1: "b64_round (1000000000000000000) = Fin (1000000000000000000)"
    by (rule b64_round_exact [where n = "3814697265625" and k = "18"]) (simp_all add: pow2_eval)
  have r2: "b64_round (4) = Fin (4)"
    by (rule b64_round_exact [where n = "1" and k = "2"]) (simp_all add: pow2_eval)
  have r3: "b64_round (- 15125000000) = Fin (- 15125000000)"
    by (rule b64_round_exact [where n = "- 236328125" and k = "6"]) (simp_all add: pow2_eval)
  have r4: "b64_round (1000000015125000000) = Fin (1000000015124999936)"
    proof -
      have "b64_round (1000000015125000000) = Fin (of_int (7812500118164062) * pow2 (59 - 52))"
        by (rule b64_round_normal_tie [where h = "3906250059082031"]) (simp_all add: pow2_eval)
      then show ?thesis by (simp add: pow2_eval)
    qed
  have r5: "b64_round (sqrt (1000000015124999936)) = Fin (8388608063438847 / 8388608)"
    proof -
      have "b64_round (sqrt (1000000015124999936)) = Fin (of_int (8388608063438847) * pow2 (29 - 52))"
        by (rule b64_round_sqrt) (simp_all add: pow2_eval power2_eq_square)
      then show ?thesis by (simp add: pow2_eval)
    qed
  have r6: "b64_round (2) = Fin (2)"
    by (rule b64_round_exact [where n = "1" and k = "1"]) (simp_all add: pow2_eval)
  have r7: "b64_round (63438847 / 8388608) = Fin (63438847 / 8388608)"
    by (rule b64_round_exact [where n = "63438847" and k = "- 23"]) (simp_all add: pow2_eval)
  have r8: "b64_round (63438847 / 16777216) = Fin (63438847 / 16777216)"
    by (rule b64_round_exact [where n = "63438847" and k = "- 24"]) (simp_all add: pow2_eval)
  have r9: "b64_round (- (16777216063438847 / 8388608)) = Fin (- (32000000121 / 16))"
    proof -
      have "b64_round (- (16777216063438847 / 8388608)) = Fin (of_int (- 8388608031719424) * pow2 (30 - 52))"
        by (rule b64_round_normal_tie [where h = "- 4194304015859712"]) (simp_all add: pow2_eval)
      then show ?thesis by (simp add: pow2_eval)
    qed
  have r10: "b64_round (- (32000000121 / 32)) = Fin (- (32000000121 / 32))"
    by (rule b64_round_exact [where n = "- 32000000121" and k = "- 5"]) (simp_all add: pow2_eval)
  have r11: "b64_round (1 / 16777216) = Fin (1 / 16777216)"
    by (rule b64_round_exact [where n = "1" and k = "- 24"]) (simp_all add: pow2_eval)
  show ?thesis
    using r0 r1 r2 r3 r4 r5 r6 r7 r8 r9 r10 r11
    by (simp add: solve_equilibrium_64_def candidates_64_def disc_64_def Let_def fsub_def fdiv_def
        flt_def fle_def math_sqrt_64_def math_log10_64_def b64_round_0)
qed

lemma b64_call_inf:
  "solve_equilibrium_64 \<lparr>c0_64 = PInf, Ka_64 = Fin 1\<rparr> = Inr \<lparr>h_plus_64 = PInf, a_minus_64 = PInf, ha_64 = NaN, pH_64 = NInf\<rparr>"
proof -
  have r0: "b64_round (1) = Fin (1)"
    by (rule b64_round_exact [where n = "1" and k = "0"]) (simp_all add: pow2_eval)
  have r1: "b64_round (4) = Fin (4)"
    by (rule b64_round_exact [where n = "1" and k = "2"]) (simp_all add: pow2_eval)
  have r2: "b64_round (2) = Fin (2)"
    by (rule b64_round_exact [where n = "1" and k = "1"]) (simp_all add: pow2_eval)
  show ?thesis
    using r0 r1 r2
    by (simp add: solve_equilibrium_64_def candidates_64_def disc_64_def Let_def fsub_def fdiv_def
        flt_def fle_def math_sqrt_64_def math_log10_64_def b64_round_0)
qed

lemma b64_call_tiny:
  "candidates_64 \<lparr>c0_64 = Fin (3602879701896397 / 2 ^ 55), Ka_64 = Fin (1 / 2 ^ 1074)\<rparr> = Inr [Fin 0, Fin 0] \<and> solve_equilibrium_64 \<lparr>c0_64 = Fin (3602879701896397 / 2 ^ 55), Ka_64 = Fin (1 / 2 ^ 1074)\<rparr> = Inl (ValueError_of MathDomainError)"
proof -
  have r0: "b64_round (- (3602879701896397 / 7292309700590022739414262022877422190801598279886340981745171257367098068725104131911619179029222940482597888335407858675057769817714232283870412932659462176092204209742620236052248859049791622115618325727203836689963075885156833957320229072129729133236389394983621105149364781798798084034090722628823189432924536844353025348744168091942912)) = Fin (0)"
    proof -
      have "b64_round (- (3602879701896397 / 7292309700590022739414262022877422190801598279886340981745171257367098068725104131911619179029222940482597888335407858675057769817714232283870412932659462176092204209742620236052248859049791622115618325727203836689963075885156833957320229072129729133236389394983621105149364781798798084034090722628823189432924536844353025348744168091942912)) = Fin (of_int (0) * pow2 (- 1074))"
        by (rule b64_round_subnormal) (simp_all add: pow2_eval)
      then show ?thesis by (simp add: pow2_eval)
    qed
  have r1: "b64_round (1 / 40966672143876732145176228848043091143928566425868314369800638377010779053124493714260960149070292229477000187962034707314131344279013990700557084216067703100110397626915930050017669416781158249744236172365003101763600273594402063864722325201532144604115521818460662623935143647469165084514879475815880467163982182410113805509643338164835839186040845030529294117697218294439255325218264815180040054295920900280527835303063728875285777248462704511695944824230554347848626506942611938335291999257755662113691788246053880398723321865319809478918081631431889557552749507834196358292243660837246218506196446294893757162080795972525602568587162635206656) = Fin (0)"
    proof -
      have "b64_round (1 / 40966672143876732145176228848043091143928566425868314369800638377010779053124493714260960149070292229477000187962034707314131344279013990700557084216067703100110397626915930050017669416781158249744236172365003101763600273594402063864722325201532144604115521818460662623935143647469165084514879475815880467163982182410113805509643338164835839186040845030529294117697218294439255325218264815180040054295920900280527835303063728875285777248462704511695944824230554347848626506942611938335291999257755662113691788246053880398723321865319809478918081631431889557552749507834196358292243660837246218506196446294893757162080795972525602568587162635206656) = Fin (of_int (0) * pow2 (- 1074))"
        by (rule b64_round_subnormal) (simp_all add: pow2_eval)
      then show ?thesis by (simp add: pow2_eval)
    qed
  have r2: "b64_round (4) = Fin (4)"
    by (rule b64_round_exact [where n = "1" and k = "2"]) (simp_all add: pow2_eval)
  have r3: "b64_round (2) = Fin (2)"
    by (rule b64_round_exact [where n = "1" and k = "1"]) (simp_all add: pow2_eval)
  have r4: "b64_round (- (1 / 202402253307310618352495346718917307049556649764142118356901358027430339567995346891960383701437124495187077864316811911389808737385793476867013399940738509921517424276566361364466907742093216341239767678472745068562007483424692698618103355649159556340810056512358769552333414615230502532186327508646006263307707741093494784)) = Fin (- (1 / 202402253307310618352495346718917307049556649764142118356901358027430339567995346891960383701437124495187077864316811911389808737385793476867013399940738509921517424276566361364466907742093216341239767678472745068562007483424692698618103355649159556340810056512358769552333414615230502532186327508646006263307707741093494784))"
    by (rule b64_round_exact [where n = "- 1" and k = "- 1074"]) (simp_all add: pow2_eval)
  have r5: "b64_round (- (1 / 404804506614621236704990693437834614099113299528284236713802716054860679135990693783920767402874248990374155728633623822779617474771586953734026799881477019843034848553132722728933815484186432682479535356945490137124014966849385397236206711298319112681620113024717539104666829230461005064372655017292012526615415482186989568)) = Fin (0)"
    proof -
      have "b64_round (- (1 / 404804506614621236704990693437834614099113299528284236713802716054860679135990693783920767402874248990374155728633623822779617474771586953734026799881477019843034848553132722728933815484186432682479535356945490137124014966849385397236206711298319112681620113024717539104666829230461005064372655017292012526615415482186989568)) = Fin (of_int (0) * pow2 (- 1074))"
        by (rule b64_round_subnormal_tie [where h = "0"]) (simp_all add: pow2_eval)
      then show ?thesis by (simp add: pow2_eval)
    qed
  have r6: "b64_round (3602879701896397 / 36028797018963968) = Fin (3602879701896397 / 36028797018963968)"
    by (rule b64_round_exact [where n = "3602879701896397" and k = "- 55"]) (simp_all add: pow2_eval)
  show ?thesis
    using r0 r1 r2 r3 r4 r5 r6
    by (simp add: solve_equilibrium_64_def candidates_64_def disc_64_def Let_def fsub_def fdiv_def
        flt_def fle_def math_sqrt_64_def math_log10_64_def b64_round_0)
qed

lemma b64_call_huge:
  "solve_equilibrium_64 \<lparr>c0_64 = Fin 0, Ka_64 = Fin (5883593420661338 * 2 ^ 612)\<rparr> = Inl (ValueError_of NoPhysicalSolution)"
proof -
  have r0: "b64_round (9999999999999999394662444250207242350328975537437122472339781620627054208687723630273803080019321330542305583946752893233248807023279528544321615522160248929124666144096269561533145561164738489983397621092322208138630994725213747351190385096618755256077267472586468217736468683611398422884121732612670396695303894425945224331154483477963396905445761715933439520020822843337114038314499908946523848704) = PInf"
    by (rule b64_round_overflow) simp
  have r1: "b64_round (4) = Fin (4)"
    by (rule b64_round_exact [where n = "1" and k = "2"]) (simp_all add: pow2_eval)
  have r2: "b64_round (2) = Fin (2)"
    by (rule b64_round_exact [where n = "1" and k = "1"]) (simp_all add: pow2_eval)
  show ?thesis
    using r0 r1 r2
    by (simp add: solve_equilibrium_64_def candidates_64_def disc_64_def Let_def fsub_def fdiv_def
        flt_def fle_def math_sqrt_64_def math_log10_64_def b64_round_0)
qed

section \<open>Facts about the solver over binary64\<close>

text \<open>\<open>max\<close> returns a member of its list.\<close>

lemma foldl_pick_mem:
  "foldl (\<lambda>m y. if flt m y then y else m) v vs \<in> set (v # vs)"
  by (induction vs arbitrary: v) auto

lemma max_list_64_mem:
  assumes "max_list_64 xs = Inr x"
  shows "x \<in> set xs"
proof (cases xs)
  case Nil
  with assms show ?thesis by simp
next
  case (Cons v vs)
  with assms have "x = foldl (\<lambda>m y. if flt m y then y else m) v vs" by simp
  with Cons foldl_pick_mem [of v vs] show ?thesis by simp
qed

text \<open>Every member of the filtered list passed both tests of the filter.\<close>

lemma candidates_64_bounds:
  assumes "candidates_64 self = Inr cs" and "x \<in> set cs"
  shows "fle (Fin 0) x \<and> fle x (c0_64 self)"
  using assms
  by (auto simp: candidates_64_def Let_def split: if_splits sum.splits)

text \<open>Rounding does not change the sign: a real that is not negative rounds to a float that
  is not negative.\<close>

lemma b64_round_nonneg:
  assumes "0 \<le> y"
  shows "fle (Fin 0) (b64_round y)"
proof (cases "y = 0")
  case True
  then show ?thesis by (simp add: b64_round_def fle_def)
next
  case False
  with assms have y: "0 < y" by simp
  define q where "q = pow2 (max \<lfloor>log 2 \<bar>y\<bar>\<rfloor> (- 1022) - 52)"
  have q: "0 < q" by (simp add: q_def pow2_pos)
  have "0 \<le> \<lfloor>y / q\<rfloor>" using y q by simp
  then have "0 \<le> round_ties_even (y / q)"
    using round_ties_even_ge_floor [of "y / q"] by linarith
  then have "0 \<le> of_int (round_ties_even (y / q)) * q"
    using q by simp
  then show ?thesis
    using y False by (simp add: b64_round_def Let_def fle_def q_def)
qed

section \<open>The claims\<close>

text \<open>
  C1. The claim: for every \<open>c0 > 0\<close> and \<open>Ka > 0\<close> the call returns a record with
  \<open>0 \<le> h_plus \<le> c0\<close>, \<open>ha = c0 - h_plus\<close> and \<open>a_minus = h_plus\<close>. The program does not
  return for \<open>c0 = 2 ^ -40\<close> and \<open>Ka = 2 ^ 40\<close>, both floats: \<open>Ka * Ka = 2 ^ 80\<close>,
  \<open>disc = 2 ^ 80 + 4\<close> rounds to \<open>2 ^ 80\<close>, its square root is \<open>2 ^ 40\<close>, \<open>-b + sqrt disc\<close>
  cancels to \<open>0.0\<close>, the filter keeps \<open>x1 = 0.0\<close>, and \<open>math.log10\<close> raises. The exact
  quadratic of the docstring has a positive root there, and the call over exact
  arithmetic returns.
\<close>

theorem C1_binary64_cancellation_raises:
  "solve_equilibrium_64 \<lparr>c0_64 = Fin (1 / 2 ^ 40), Ka_64 = Fin (2 ^ 40)\<rparr>
      = Inl (ValueError_of MathDomainError)
   \<and> (\<exists>r. solve_equilibrium \<lparr>c0 = 1 / 2 ^ 40, Ka = 2 ^ 40\<rparr> = Inr r)"
  using b64_call_cancel solve_equilibrium_positive [of "\<lparr>c0 = 1 / 2 ^ 40, Ka = 2 ^ 40\<rparr>"]
  by simp

text \<open>
  C2. The claim: \<open>NoRealSolution\<close> exactly when \<open>D = Ka\<^sup>2 + 4 Ka c0\<close> is negative,
  \<open>NoPhysicalSolution\<close> exactly when \<open>D \<ge> 0\<close> and neither root \<open>(-Ka \<plusminus> sqrt D) / 2\<close> lies
  in \<open>[0, c0]\<close>, and in every other case the call goes on to the result. The program
  raises \<open>NoPhysicalSolution\<close> outside that condition: with \<open>c0 = 0.75\<close> and
  \<open>Ka = 379924135\<close>, both floats, \<open>D\<close> is positive and the root \<open>x1\<close> lies in \<open>[0, c0]\<close>,
  but the computed \<open>x1\<close> is \<open>25165825 / 2 ^ 25 = 0.7500000298\<close>, above \<open>c0\<close>, the computed
  \<open>x2\<close> is negative, and the filtered list is empty.
\<close>

theorem C2_binary64_no_physical_solution:
  "solve_equilibrium_64 \<lparr>c0_64 = Fin (3 / 4), Ka_64 = Fin 379924135\<rparr>
      = Inl (ValueError_of NoPhysicalSolution)
   \<and> 0 \<le> (379924135::real)\<^sup>2 + 4 * 379924135 * (3 / 4)
   \<and> 0 \<le> x1_of \<lparr>c0 = 3 / 4, Ka = 379924135\<rparr>
   \<and> x1_of \<lparr>c0 = 3 / 4, Ka = 379924135\<rparr> \<le> 3 / 4"
proof -
  have "0 < x1_of \<lparr>c0 = 3 / 4, Ka = 379924135\<rparr>"
    using x1_of_pos [of "\<lparr>c0 = 3 / 4, Ka = 379924135\<rparr>"] by simp
  moreover have "x1_of \<lparr>c0 = 3 / 4, Ka = 379924135\<rparr> \<le> 3 / 4"
    using x1_of_le_c0 [of "\<lparr>c0 = 3 / 4, Ka = 379924135\<rparr>"] by simp
  ultimately show ?thesis
    using b64_call_three_quarters by simp
qed

text \<open>
  C3. The claim: for every \<open>c0 > 0\<close> and \<open>Ka > 0\<close> neither error branch of the solver is
  reachable. The program takes the second one for \<open>c0 = 0.1\<close> (the float
  \<open>3602879701896397 / 2 ^ 55\<close>) and \<open>Ka = 1e8\<close>: \<open>disc = 10000000040000000\<close>, its square
  root rounds to \<open>6710886413421773 / 2 ^ 26\<close>, so \<open>x1 = 13421773 / 2 ^ 27 =
  0.10000000149\<close>, above \<open>c0\<close>; \<open>x2\<close> is negative and the filtered list is empty. Over exact
  arithmetic the list holds the root \<open>x1\<close>, and the call returns.
\<close>

theorem C3_binary64_error_branch_reached:
  "solve_equilibrium_64 \<lparr>c0_64 = Fin (3602879701896397 / 2 ^ 55), Ka_64 = Fin 100000000\<rparr>
      = Inl (ValueError_of NoPhysicalSolution)
   \<and> flt (Fin 0) (Fin (3602879701896397 / 2 ^ 55)) \<and> flt (Fin 0) (Fin 100000000)
   \<and> candidates_of \<lparr>c0 = 3602879701896397 / 2 ^ 55, Ka = 100000000\<rparr>
      = [x1_of \<lparr>c0 = 3602879701896397 / 2 ^ 55, Ka = 100000000\<rparr>]
   \<and> (\<exists>r. solve_equilibrium \<lparr>c0 = 3602879701896397 / 2 ^ 55, Ka = 100000000\<rparr> = Inr r)"
  using b64_call_tenth
    candidates_of_positive [of "\<lparr>c0 = 3602879701896397 / 2 ^ 55, Ka = 100000000\<rparr>"]
    solve_equilibrium_positive [of "\<lparr>c0 = 3602879701896397 / 2 ^ 55, Ka = 100000000\<rparr>"]
  by (simp add: flt_def)

text \<open>
  C4. Whenever the call returns, the \<open>pH\<close> of the returned record is \<open>- log10\<close> of its
  \<open>h_plus\<close>.
\<close>

theorem C4_pH_is_neg_log10:
  assumes "solve_equilibrium s = Inr r"
  shows "pH r = - log 10 (h_plus r)"
  using solve_equilibrium_Inr [OF assms] by auto

theorem C4_pH_is_neg_log10_witness:
  "solve_equilibrium \<lparr>c0 = 2, Ka = 1\<rparr> = Inr \<lparr>h_plus = 1, a_minus = 1, ha = 1, pH = 0\<rparr>
   \<and> pH \<lparr>h_plus = 1, a_minus = 1, ha = 1, pH = 0\<rparr>
       = - log 10 (h_plus \<lparr>h_plus = 1, a_minus = 1, ha = 1, pH = 0\<rparr>)"
  using C4_pH_is_neg_log10 [OF example_2_1] example_2_1 by simp

text \<open>
  C5. The claim: for fixed \<open>c0 > 0\<close>, a larger \<open>Ka\<close> never gives a smaller \<open>h_plus\<close>. With
  \<open>c0 = 121 / 32 = 3.78125\<close> the program returns \<open>h_plus = 126877695 / 2 ^ 25 =
  3.7812499701976776\<close> for \<open>Ka = 5e8\<close> and the smaller \<open>h_plus = 63438847 / 2 ^ 24 =
  3.7812499403953552\<close> for \<open>Ka = 1e9\<close>: the difference \<open>-b + sqrt disc\<close> is a multiple of the
  spacing of the floats near \<open>Ka\<close>, which doubles from the first call to the second. The
  exact roots are in the claimed order.
\<close>

theorem C5_binary64_h_plus_decreases:
  "\<not> isl (solve_equilibrium_64 \<lparr>c0_64 = Fin (121 / 32), Ka_64 = Fin 500000000\<rparr>)
   \<and> \<not> isl (solve_equilibrium_64 \<lparr>c0_64 = Fin (121 / 32), Ka_64 = Fin 1000000000\<rparr>)
   \<and> h_plus_64 (projr (solve_equilibrium_64 \<lparr>c0_64 = Fin (121 / 32), Ka_64 = Fin 500000000\<rparr>))
      = Fin (126877695 / 2 ^ 25)
   \<and> h_plus_64 (projr (solve_equilibrium_64 \<lparr>c0_64 = Fin (121 / 32), Ka_64 = Fin 1000000000\<rparr>))
      = Fin (63438847 / 2 ^ 24)
   \<and> flt (Fin (63438847 / 2 ^ 24)) (Fin (126877695 / 2 ^ 25))
   \<and> fle (Fin 500000000) (Fin 1000000000)
   \<and> x1_of \<lparr>c0 = 121 / 32, Ka = 500000000\<rparr> \<le> x1_of \<lparr>c0 = 121 / 32, Ka = 1000000000\<rparr>"
  using b64_call_5e8 b64_call_1e9 x1_of_mono [of "121 / 32" 500000000 1000000000]
  by (simp add: flt_def fle_def)

text \<open>
  C6. The claim expects \<open>h_plus \<approx> 1.3404e-3\<close> and \<open>pH \<approx> 2.872\<close> for \<open>c0 = 0.1\<close>,
  \<open>Ka = 1.8e-5\<close>. The call returns, but with \<open>h_plus\<close> below \<open>1.332675e-3\<close> and \<open>pH\<close>
  above \<open>2.875\<close>: \<open>h_plus\<close> misses the claimed value by more than \<open>7e-6\<close> (half a
  percent) and \<open>pH\<close> by more than \<open>0.003\<close>.
\<close>

theorem C6_spec_values_counterexample:
  "\<not> isl (solve_equilibrium \<lparr>c0 = 1 / 10, Ka = 18 / 1000000\<rparr>)
   \<and> \<not> \<bar>h_plus (projr (solve_equilibrium \<lparr>c0 = 1 / 10, Ka = 18 / 1000000\<rparr>))
          - 13404 / 10 ^ 7\<bar> \<le> 7 / 10 ^ 6
   \<and> \<not> \<bar>pH (projr (solve_equilibrium \<lparr>c0 = 1 / 10, Ka = 18 / 1000000\<rparr>))
          - 2872 / 1000\<bar> \<le> 3 / 10 ^ 3"
proof -
  have "\<not> \<bar>x1_of \<lparr>c0 = 1 / 10, Ka = 18 / 1000000\<rparr> - 13404 / 10 ^ 7\<bar> \<le> 7 / 10 ^ 6"
    using scenario_x1 by simp
  moreover have "\<not> \<bar>- log 10 (x1_of \<lparr>c0 = 1 / 10, Ka = 18 / 1000000\<rparr>) - 2872 / 1000\<bar>
      \<le> 3 / 10 ^ 3"
    using scenario_log by simp
  ultimately show ?thesis using scenario_solve by simp
qed

text \<open>
  C6, as amended. For \<open>c0 = 0.1\<close> and \<open>Ka = 1.8e-5\<close> the call returns with
  \<open>h_plus \<approx> 1.3327e-3\<close> and \<open>pH \<approx> 2.875\<close>, each to within half a unit of its last
  digit.
\<close>

theorem C6_scenario_values:
  "\<exists>r. solve_equilibrium \<lparr>c0 = 1 / 10, Ka = 18 / 1000000\<rparr> = Inr r
     \<and> \<bar>h_plus r - 13327 / 10 ^ 7\<bar> \<le> 5 / 10 ^ 8
     \<and> \<bar>pH r - 2875 / 1000\<bar> \<le> 5 / 10 ^ 4"
proof -
  have "\<bar>x1_of \<lparr>c0 = 1 / 10, Ka = 18 / 1000000\<rparr> - 13327 / 10 ^ 7\<bar> \<le> 5 / 10 ^ 8"
    using scenario_x1 by simp
  moreover have "\<bar>- log 10 (x1_of \<lparr>c0 = 1 / 10, Ka = 18 / 1000000\<rparr>) - 2875 / 1000\<bar>
      \<le> 5 / 10 ^ 4"
    using scenario_log by simp
  ultimately show ?thesis using scenario_solve by simp
qed

text \<open>
  C7. With \<open>c0 = -1\<close> and \<open>Ka = 1\<close> the discriminant is \<open>1 - 4 = -3\<close>, and the call raises
  the first of the two solver errors instead of returning a record.
\<close>

theorem C7_negative_c0_raises:
  "solve_equilibrium \<lparr>c0 = - 1, Ka = 1\<rparr> = Inl NoRealSolution"
  by (simp add: solve_equilibrium_def Let_def)

text \<open>
  C8. The claim: on any input, valid or not, a record the call returns has \<open>ha \<ge> 0\<close>,
  \<open>a_minus \<ge> 0\<close> and \<open>h_plus \<ge> 0\<close>. With \<open>c0 = inf\<close> and \<open>Ka = 1\<close> the program returns:
  \<open>disc\<close>, its square root and \<open>x1\<close> are \<open>inf\<close>, the filter \<open>0 \<le> inf \<le> inf\<close> keeps \<open>x1\<close>,
  and \<open>ha = inf - inf\<close> is NaN, for which \<open>ha \<ge> 0\<close> is false.
\<close>

theorem C8_infinite_c0_counterexample:
  "solve_equilibrium_64 \<lparr>c0_64 = PInf, Ka_64 = Fin 1\<rparr>
      = Inr \<lparr>h_plus_64 = PInf, a_minus_64 = PInf, ha_64 = NaN, pH_64 = NInf\<rparr>
   \<and> \<not> fle (Fin 0) (ha_64 (projr (solve_equilibrium_64 \<lparr>c0_64 = PInf, Ka_64 = Fin 1\<rparr>)))"
  using b64_call_inf by (simp add: fle_def)

text \<open>
  C8, as amended. On any input whose \<open>c0\<close> is not \<open>+inf\<close>, valid or not, with \<open>Ka\<close> any
  float, a record the call returns has \<open>ha \<ge> 0\<close>, \<open>a_minus \<ge> 0\<close> and \<open>h_plus \<ge> 0\<close>, in
  binary64: the selected root passed the filter \<open>0 \<le> x \<le> c0\<close>, so it is a finite float, and
  the difference \<open>c0 - x\<close> of two floats with \<open>x \<le> c0\<close> does not round below zero.
\<close>

theorem C8_result_nonnegative_64:
  assumes c: "c0_64 self \<noteq> PInf"
    and r: "solve_equilibrium_64 self = Inr r"
  shows "fle (Fin 0) (ha_64 r) \<and> fle (Fin 0) (a_minus_64 r) \<and> fle (Fin 0) (h_plus_64 r)"
proof -
  from r obtain cs x l where cs: "candidates_64 self = Inr cs"
    and m: "max_list_64 cs = Inr x"
    and res: "r = \<lparr>h_plus_64 = x, a_minus_64 = x, ha_64 = fsub (c0_64 self) x, pH_64 = fneg l\<rparr>"
    by (auto simp: solve_equilibrium_64_def Let_def split: if_splits sum.splits)
  from candidates_64_bounds [OF cs max_list_64_mem [OF m]]
  have lo: "fle (Fin 0) x" and hi: "fle x (c0_64 self)" by simp_all
  from lo hi c obtain v u where x: "x = Fin v" and u: "c0_64 self = Fin u"
    and "0 \<le> v" and "v \<le> u"
    by (auto simp: fle_def split: pyfloat.splits)
  then have "fle (Fin 0) (fsub (c0_64 self) x)"
    using b64_round_nonneg [of "u - v"] by (simp add: fsub_def)
  with lo res show ?thesis by simp
qed

text \<open>
  The amended statement at \<open>c0 = 2\<close>, \<open>Ka = 1\<close>, where every operation is exact: the call
  returns \<open>h_plus = a_minus = ha = 1\<close> and \<open>pH = 0\<close>.
\<close>

theorem C8_result_nonnegative_64_witness:
  "c0_64 \<lparr>c0_64 = Fin 2, Ka_64 = Fin 1\<rparr> \<noteq> PInf
   \<and> solve_equilibrium_64 \<lparr>c0_64 = Fin 2, Ka_64 = Fin 1\<rparr>
      = Inr \<lparr>h_plus_64 = Fin 1, a_minus_64 = Fin 1, ha_64 = Fin 1, pH_64 = Fin 0\<rparr>
   \<and> fle (Fin 0) (ha_64 \<lparr>h_plus_64 = Fin 1, a_minus_64 = Fin 1, ha_64 = Fin 1, pH_64 = Fin 0\<rparr>)
   \<and> fle (Fin 0) (a_minus_64 \<lparr>h_plus_64 = Fin 1, a_minus_64 = Fin 1, ha_64 = Fin 1, pH_64 = Fin 0\<rparr>)
   \<and> fle (Fin 0) (h_plus_64 \<lparr>h_plus_64 = Fin 1, a_minus_64 = Fin 1, ha_64 = Fin 1, pH_64 = Fin 0\<rparr>)"
  using C8_result_nonnegative_64 [of "\<lparr>c0_64 = Fin 2, Ka_64 = Fin 1\<rparr>"
      "\<lparr>h_plus_64 = Fin 1, a_minus_64 = Fin 1, ha_64 = Fin 1, pH_64 = Fin 0\<rparr>"]
    b64_call_2_1
  by simp

text \<open>
  C9. The claim: for every \<open>c0 > 0\<close> and \<open>Ka > 0\<close> the smaller root is negative, the
  filtered list has at most one element, and a returning call selects \<open>x1\<close>. With
  \<open>c0 = 0.1\<close> and \<open>Ka = 5e-324\<close>, the smallest positive float \<open>2 ^ -1074\<close>, the products
  \<open>Ka * Ka\<close> and \<open>Ka * c0\<close> underflow to zero, \<open>disc\<close> and its square root are zero, and
  both \<open>-Ka / 2\<close> round to zero: the program's list holds both roots, neither of them
  negative, and \<open>math.log10\<close> raises on the selected zero. Over exact arithmetic the
  smaller root is negative and the list is \<open>[x1]\<close>.
\<close>

theorem C9_binary64_two_candidates:
  "candidates_64 \<lparr>c0_64 = Fin (3602879701896397 / 2 ^ 55), Ka_64 = Fin (1 / 2 ^ 1074)\<rparr>
      = Inr [Fin 0, Fin 0]
   \<and> length [Fin 0, Fin (0::real)] = 2
   \<and> \<not> flt (Fin 0) (Fin 0)
   \<and> solve_equilibrium_64 \<lparr>c0_64 = Fin (3602879701896397 / 2 ^ 55), Ka_64 = Fin (1 / 2 ^ 1074)\<rparr>
      = Inl (ValueError_of MathDomainError)
   \<and> x2_of \<lparr>c0 = 3602879701896397 / 2 ^ 55, Ka = 1 / 2 ^ 1074\<rparr> < 0
   \<and> candidates_of \<lparr>c0 = 3602879701896397 / 2 ^ 55, Ka = 1 / 2 ^ 1074\<rparr>
      = [x1_of \<lparr>c0 = 3602879701896397 / 2 ^ 55, Ka = 1 / 2 ^ 1074\<rparr>]"
proof -
  have "0 \<le> disc_of \<lparr>c0 = 3602879701896397 / 2 ^ 55, Ka = 1 / 2 ^ 1074\<rparr>"
    by (rule disc_of_nonneg) simp_all
  then have "x2_of \<lparr>c0 = 3602879701896397 / 2 ^ 55, Ka = 1 / 2 ^ 1074\<rparr> < 0"
    by (intro x2_of_neg) simp_all
  then show ?thesis
    using b64_call_tiny candidates_of_positive [of "\<lparr>c0 = 3602879701896397 / 2 ^ 55, Ka = 1 / 2 ^ 1074\<rparr>"]
    by (simp add: flt_def)
qed

text \<open>
  C10. The claim: with \<open>c0 = 0\<close> and any \<open>Ka > 0\<close> both tests pass, the selected root is
  \<open>0\<close> and \<open>math.log10 0\<close> raises, an error that is neither \<open>NoRealSolution\<close> nor
  \<open>NoPhysicalSolution\<close>. With \<open>Ka = 1e200\<close> (the float \<open>5883593420661338 * 2 ^ 612\<close>) the
  product \<open>Ka * Ka\<close> overflows: \<open>disc\<close> and its square root are \<open>inf\<close>, the roots are \<open>inf\<close>
  and \<open>-inf\<close>, the filtered list is empty and the program raises \<open>NoPhysicalSolution\<close>.
  Over exact arithmetic the call does what the claim says.
\<close>

theorem C10_binary64_overflow_no_physical_solution:
  "solve_equilibrium_64 \<lparr>c0_64 = Fin 0, Ka_64 = Fin (5883593420661338 * 2 ^ 612)\<rparr>
      = Inl (ValueError_of NoPhysicalSolution)
   \<and> flt (Fin 0) (Fin (5883593420661338 * 2 ^ 612))
   \<and> solve_equilibrium \<lparr>c0 = 0, Ka = 5883593420661338 * 2 ^ 612\<rparr> = Inl MathDomainError"
  using b64_call_huge solve_equilibrium_zero_c0 [of "5883593420661338 * 2 ^ 612"]
  by (simp add: flt_def)

end
